theory Spec2Isabelle
  imports Main "HOL-Library.AList" "HOL-Library.Sublist"
begin

section \<open>Python values\<close>

text \<open>
  The plugin handles the values that \<^verbatim>\<open>json.load\<close> and the MusicBrainz client
  return: \<^verbatim>\<open>None\<close>, booleans, integers, strings, lists and dictionaries with
  string keys. A dictionary is an association list in insertion order; floats do not
  occur in the data the plugin reads or writes and are left out. A string is a list
  of characters; the identifiers and country codes of the service are ASCII.
\<close>

datatype pyval =
    PNone
  | PBool bool
  | PInt int
  | PStr string
  | PList "pyval list"
  | PDict "(string \<times> pyval) list"

text \<open>
  The exceptions the interpreter raises on these values, when it reads a file
  that is not text (\<^verbatim>\<open>UnicodeDecodeError\<close>, a \<^verbatim>\<open>ValueError\<close>) and when calls are
  nested deeper than its recursion limit (\<^verbatim>\<open>RecursionError\<close>), and the error of
  the MusicBrainz client (network or response error) with its message. All of
  them are subclasses of \<^verbatim>\<open>Exception\<close>.
\<close>

datatype exn =
    KeyError | TypeError | AttributeError | IndexError
  | UnicodeDecodeError | RecursionError
  | ServiceError string

text \<open>Truth value of an object, as \<^verbatim>\<open>not x\<close> and \<^verbatim>\<open>if x\<close> test it.\<close>

fun truthy :: "pyval \<Rightarrow> bool" where
  "truthy PNone = False"
| "truthy (PBool b) = b"
| "truthy (PInt i) = (i \<noteq> 0)"
| "truthy (PStr s) = (s \<noteq> [])"
| "truthy (PList xs) = (xs \<noteq> [])"
| "truthy (PDict kvs) = (kvs \<noteq> [])"

text \<open>\<^verbatim>\<open>v[k]\<close> with a string key: only a dictionary can be subscripted by a string.\<close>

fun getitem :: "pyval \<Rightarrow> string \<Rightarrow> exn + pyval" where
  "getitem (PDict kvs) k = (case map_of kvs k of None \<Rightarrow> Inl KeyError | Some x \<Rightarrow> Inr x)"
| "getitem v k = Inl TypeError"

text \<open>\<^verbatim>\<open>v.get(k, d)\<close>: a method of dictionaries only.\<close>

fun get_default :: "pyval \<Rightarrow> string \<Rightarrow> pyval \<Rightarrow> exn + pyval" where
  "get_default (PDict kvs) k d = (case map_of kvs k of None \<Rightarrow> Inr d | Some x \<Rightarrow> Inr x)"
| "get_default v k d = Inl AttributeError"

text \<open>
  \<^verbatim>\<open>k in v\<close> for a string \<open>k\<close>: key membership in a dictionary, element membership
  in a list, substring test in a string; the other values are not containers.
\<close>

fun contains :: "string \<Rightarrow> pyval \<Rightarrow> exn + bool" where
  "contains k (PDict kvs) = Inr (map_of kvs k \<noteq> None)"
| "contains k (PList xs) = Inr (PStr k \<in> set xs)"
| "contains k (PStr s) = Inr (sublist k s)"
| "contains k v = Inl TypeError"

text \<open>
  \<^verbatim>\<open>v[k] = x\<close> with a string key. An existing key keeps its position, a new key
  goes to the end. Lists and strings reject a string index, the rest reject any.
\<close>

fun setitem :: "pyval \<Rightarrow> string \<Rightarrow> pyval \<Rightarrow> exn + pyval" where
  "setitem (PDict kvs) k x = Inr (PDict (AList.update k x kvs))"
| "setitem v k x = Inl TypeError"

text \<open>\<^verbatim>\<open>v[0]\<close>.\<close>

fun first_item :: "pyval \<Rightarrow> exn + pyval" where
  "first_item (PList []) = Inl IndexError"
| "first_item (PList (x # xs)) = Inr x"
| "first_item (PStr []) = Inl IndexError"
| "first_item (PStr (c # cs)) = Inr (PStr [c])"
| "first_item (PDict kvs) = Inl KeyError"
| "first_item v = Inl TypeError"

text \<open>The elements \<^verbatim>\<open>for a in v\<close> runs over.\<close>

fun iterate :: "pyval \<Rightarrow> exn + pyval list" where
  "iterate (PList xs) = Inr xs"
| "iterate (PDict kvs) = Inr (map (\<lambda>kv. PStr (fst kv)) kvs)"
| "iterate (PStr s) = Inr (map (\<lambda>c. PStr [c]) s)"
| "iterate v = Inl TypeError"

text \<open>\<^verbatim>\<open>str.lower\<close> on ASCII; other characters are kept.\<close>

definition uppercase :: string where
  "uppercase = ''ABCDEFGHIJKLMNOPQRSTUVWXYZ''"

definition lowercase :: string where
  "lowercase = ''abcdefghijklmnopqrstuvwxyz''"

definition lower_char :: "char \<Rightarrow> char" where
  "lower_char c = (case map_of (zip uppercase lowercase) c of None \<Rightarrow> c | Some d \<Rightarrow> d)"

fun lower :: "pyval \<Rightarrow> exn + pyval" where
  "lower (PStr s) = Inr (PStr (map lower_char s))"
| "lower v = Inl AttributeError"

section \<open>The plugin's surroundings\<close>

text \<open>
  What the plugin calls but does not define: the two lookups of the MusicBrainz
  client (each returns a value or raises), the clock behind
  \<^verbatim>\<open>datetime.now().isoformat()\<close>, and \<^verbatim>\<open>str(e)\<close> of an exception.
\<close>

record world =
  get_artist_by_id :: "string \<Rightarrow> exn + pyval"
  get_area_by_id :: "pyval \<Rightarrow> exn + pyval"
  now :: string
  str_exn :: "exn \<Rightarrow> string"

text \<open>
  The cache file as \<^verbatim>\<open>load_cache\<close> finds it: absent; present but failing to open
  (\<^verbatim>\<open>IOError\<close>); present with text that is not JSON (\<^verbatim>\<open>JSONDecodeError\<close>);
  present with bytes that are not text (\<^verbatim>\<open>UnicodeDecodeError\<close>); present with a
  document nested deeper than the parser can follow (\<^verbatim>\<open>RecursionError\<close>); or
  holding a JSON document. The text encoding of \<^verbatim>\<open>json.dump\<close> and \<^verbatim>\<open>json.load\<close>
  belongs to Python's library; the file is modelled by the document it holds.
\<close>

datatype file_content = Absent | Unreadable | Malformed | Undecodable | TooDeep | Json pyval

datatype remote_call = GetArtist string | GetArea pyval

datatype level = DEBUG | INFO | WARNING

text \<open>One constructor for each message the plugin logs, with the values it formats.\<close>

datatype message =
    Processing nat
  | SetCountry pyval string string
  | Updated nat
  | ErrorLoading
  | ErrorSaving
  | NoCountryFromArea string
  | ErrorFetching string string

text \<open>
  The environment a call runs in and changes: the cache file, whether writing it
  succeeds, the remote calls made so far, and the log.
\<close>

record env =
  cache_file :: file_content
  writable :: bool
  calls :: "remote_call list"
  logged :: "(level \<times> message) list"

text \<open>An instance of \<^verbatim>\<open>CountryPlugin\<close>: its attribute \<^verbatim>\<open>_cache\<close>.\<close>

record plugin =
  cache :: pyval

definition CountryPlugin :: plugin where
  "CountryPlugin = \<lparr>cache = PNone\<rparr>"

definition log_msg :: "level \<Rightarrow> message \<Rightarrow> env \<Rightarrow> env" where
  "log_msg l m e = e\<lparr>logged := logged e @ [(l, m)]\<rparr>"

section \<open>Cache store\<close>

text \<open>
  \<^verbatim>\<open>load_cache\<close> catches \<^verbatim>\<open>json.JSONDecodeError\<close> and \<^verbatim>\<open>IOError\<close> only: the two
  other failures of \<^verbatim>\<open>json.load\<close> leave the method as exceptions, with \<^verbatim>\<open>_cache\<close>
  still \<^verbatim>\<open>None\<close> and nothing logged.
\<close>

definition load_cache :: "plugin \<Rightarrow> env \<Rightarrow> (exn + pyval) \<times> plugin \<times> env" where
  "load_cache self e =
    (if cache self \<noteq> PNone then (Inr (cache self), self, e)
     else case cache_file e of
         Absent \<Rightarrow> (Inr (PDict []), self\<lparr>cache := PDict []\<rparr>, e)
       | Unreadable \<Rightarrow>
           (Inr (PDict []), self\<lparr>cache := PDict []\<rparr>, log_msg WARNING ErrorLoading e)
       | Malformed \<Rightarrow>
           (Inr (PDict []), self\<lparr>cache := PDict []\<rparr>, log_msg WARNING ErrorLoading e)
       | Undecodable \<Rightarrow> (Inl UnicodeDecodeError, self, e)
       | TooDeep \<Rightarrow> (Inl RecursionError, self, e)
       | Json v \<Rightarrow> (Inr v, self\<lparr>cache := v\<rparr>, e))"

definition save_cache :: "plugin \<Rightarrow> env \<Rightarrow> env" where
  "save_cache self e =
    (if cache self = PNone then e
     else if writable e then e\<lparr>cache_file := Json (cache self)\<rparr>
     else log_msg WARNING ErrorSaving e)"

text \<open>
  The cache as the spec describes it: a mapping from identifiers to records.
\<close>

definition sound_cache :: "pyval \<Rightarrow> bool" where
  "sound_cache c =
    (case c of
       PDict kvs \<Rightarrow> list_all (\<lambda>kv. case snd kv of PDict r \<Rightarrow> True | _ \<Rightarrow> False) kvs
     | _ \<Rightarrow> False)"

section \<open>Area hierarchy\<close>

definition has_country_iso_code :: "pyval \<Rightarrow> exn + bool" where
  "has_country_iso_code area =
    (case getitem area ''type'' of
       Inl x \<Rightarrow> Inl x
     | Inr t \<Rightarrow> if t = PStr ''Country'' then contains ''iso-3166-1-code-list'' area else Inr False)"

text \<open>
  The list comprehension of \<^verbatim>\<open>_find_top_area\<close>: the \<^verbatim>\<open>area\<close> of each relation
  whose direction is \<^verbatim>\<open>backward\<close>, in order; the first failing access raises.
\<close>

fun backward_areas :: "pyval list \<Rightarrow> exn + pyval list" where
  "backward_areas [] = Inr []"
| "backward_areas (a # as) =
    (case get_default a ''direction'' (PStr '''') of
       Inl x \<Rightarrow> Inl x
     | Inr d \<Rightarrow>
         if d = PStr ''backward'' then
           (case getitem a ''area'' of
              Inl x \<Rightarrow> Inl x
            | Inr b \<Rightarrow> (case backward_areas as of Inl x \<Rightarrow> Inl x | Inr bs \<Rightarrow> Inr (b # bs)))
         else backward_areas as)"

text \<open>
  The first two statements of \<^verbatim>\<open>_find_top_area\<close>: fetch the area with its
  relations and keep the backward ones. \<open>backward_from\<close> is what the service's
  answer for an area identifier yields; \<open>new_area\<close> reads the identifier from the
  area and records the call.
\<close>

definition backward_from :: "world \<Rightarrow> pyval \<Rightarrow> exn + pyval list" where
  "backward_from w i =
    (case get_area_by_id w i of
       Inl x \<Rightarrow> Inl x
     | Inr r \<Rightarrow>
        (case getitem r ''area'' of
           Inl x \<Rightarrow> Inl x
         | Inr a \<Rightarrow>
            (case getitem a ''area-relation-list'' of
               Inl x \<Rightarrow> Inl x
             | Inr rels \<Rightarrow>
                (case iterate rels of
                   Inl x \<Rightarrow> Inl x
                 | Inr as \<Rightarrow> backward_areas as))))"

definition new_area :: "world \<Rightarrow> pyval \<Rightarrow> env \<Rightarrow> (exn + pyval list) \<times> env" where
  "new_area w area e =
    (case getitem area ''id'' of
       Inl x \<Rightarrow> (Inl x, e)
     | Inr i \<Rightarrow> (backward_from w i, e\<lparr>calls := calls e @ [GetArea i]\<rparr>))"

text \<open>
  \<^verbatim>\<open>_find_top_area\<close> recurses with no bound of its own; what bounds it is the
  interpreter, which raises \<^verbatim>\<open>RecursionError\<close> when calls are nested deeper than
  its recursion limit. The first argument is the number of nested calls of
  \<^verbatim>\<open>_find_top_area\<close> the interpreter still allows where the walk starts (the limit
  is a setting of the host process, and the depth of the stack is the host's
  too). With none left, the call raises before it runs.
\<close>

fun find_top_area :: "nat \<Rightarrow> world \<Rightarrow> pyval \<Rightarrow> env \<Rightarrow> (exn + pyval) \<times> env" where
  "find_top_area 0 w area e = (Inl RecursionError, e)"
| "find_top_area (Suc n) w area e =
    (case new_area w area e of
       (Inl x, e1) \<Rightarrow> (Inl x, e1)
     | (Inr [], e1) \<Rightarrow> (getitem area ''iso-3166-1-code-list'', e1)
     | (Inr (a # as), e1) \<Rightarrow>
        (case has_country_iso_code a of
           Inl x \<Rightarrow> (Inl x, e1)
         | Inr True \<Rightarrow> (getitem a ''iso-3166-1-code-list'', e1)
         | Inr False \<Rightarrow> find_top_area n w a e1))"

definition country_from_area :: "nat \<Rightarrow> world \<Rightarrow> pyval \<Rightarrow> env \<Rightarrow> (exn + pyval) \<times> env" where
  "country_from_area n w area e =
    (case find_top_area n w area e of
       (Inl x, e1) \<Rightarrow> (Inl x, e1)
     | (Inr countries, e1) \<Rightarrow> (first_item countries, e1))"

text \<open>
  The hierarchy the walk moves in, read off the service alone: the backward
  relations of an area, and the area the walk continues with, which is the first
  of them unless that one is a country with a code list.
\<close>

definition parents :: "world \<Rightarrow> pyval \<Rightarrow> exn + pyval list" where
  "parents w area =
    (case getitem area ''id'' of Inl x \<Rightarrow> Inl x | Inr i \<Rightarrow> backward_from w i)"

definition next_area :: "world \<Rightarrow> pyval \<Rightarrow> pyval option" where
  "next_area w area =
    (case parents w area of
       Inr (b # bs) \<Rightarrow> if has_country_iso_code b = Inr False then Some b else None
     | _ \<Rightarrow> None)"

text \<open>
  A chain of the hierarchy: a list of areas in which each one is followed by the
  area the walk continues with.
\<close>

definition chain :: "world \<Rightarrow> pyval list \<Rightarrow> bool" where
  "chain w as = (\<forall>j. Suc j < length as \<longrightarrow> next_area w (as ! j) = Some (as ! Suc j))"

text \<open>
  The spec's notion of a hierarchy that terminates in a country: \<open>t\<close> is typed as
  a country and carries a code list, and is reached from \<open>area\<close> by following the
  first backward relation through areas that are not such countries (or \<open>area\<close>
  is such a country itself and has no backward relation).
\<close>

inductive reaches_country :: "world \<Rightarrow> pyval \<Rightarrow> pyval \<Rightarrow> bool" where
  here: "parents w a = Inr [] \<Longrightarrow> has_country_iso_code a = Inr True \<Longrightarrow> reaches_country w a a"
| top: "parents w a = Inr (b # bs) \<Longrightarrow> has_country_iso_code b = Inr True
         \<Longrightarrow> reaches_country w a b"
| up: "parents w a = Inr (b # bs) \<Longrightarrow> has_country_iso_code b = Inr False
         \<Longrightarrow> reaches_country w b t \<Longrightarrow> reaches_country w a t"

section \<open>Country resolver\<close>

text \<open>
  Lines 87 to 95 of \<^verbatim>\<open>get_artist_country\<close>: the remote lookup of the artist and,
  when the record has no country but an area, the walk up the area hierarchy. The
  inner \<^verbatim>\<open>try\<close> swallows whatever the walk raises and leaves \<^verbatim>\<open>country\<close> as it
  was. The result is the pair of \<^verbatim>\<open>artist\<close> and \<^verbatim>\<open>country\<close>, or the exception
  that reaches the outer handler.
\<close>

definition fetch_country ::
  "nat \<Rightarrow> world \<Rightarrow> string \<Rightarrow> env \<Rightarrow> (exn + pyval \<times> pyval) \<times> env" where
  "fetch_country n w mb_artistid e =
    (let e1 = e\<lparr>calls := calls e @ [GetArtist mb_artistid]\<rparr> in
     case get_artist_by_id w mb_artistid of
       Inl x \<Rightarrow> (Inl x, e1)
     | Inr artist_item \<Rightarrow>
        (case getitem artist_item ''artist'' of
           Inl x \<Rightarrow> (Inl x, e1)
         | Inr artist \<Rightarrow>
            (case get_default artist ''country'' (PStr []) of
               Inl x \<Rightarrow> (Inl x, e1)
             | Inr country \<Rightarrow>
                if truthy country then (Inr (artist, country), e1)
                else
                  (case contains ''area'' artist of
                     Inl x \<Rightarrow> (Inl x, e1)
                   | Inr False \<Rightarrow> (Inr (artist, country), e1)
                   | Inr True \<Rightarrow>
                      (case getitem artist ''area'' of
                         Inl x \<Rightarrow>
                           (Inr (artist, country),
                            log_msg DEBUG (NoCountryFromArea mb_artistid) e1)
                       | Inr area \<Rightarrow>
                          (case country_from_area n w area e1 of
                             (Inl x, e2) \<Rightarrow>
                               (Inr (artist, country),
                                log_msg DEBUG (NoCountryFromArea mb_artistid) e2)
                           | (Inr c, e2) \<Rightarrow> (Inr (artist, c), e2)))))))"

text \<open>
  Lines 98 to 106: build the record, insert it, save, return the country in lower
  case. Nothing has changed when one of the steps raises.
\<close>

definition cache_result ::
  "world \<Rightarrow> string \<Rightarrow> pyval \<Rightarrow> pyval \<Rightarrow> pyval \<Rightarrow> plugin \<Rightarrow> env \<Rightarrow> (exn + pyval) \<times> plugin \<times> env" where
  "cache_result w mb_artistid cch artist country self e =
    (case (if truthy country then lower country else Inr (PStr [])) of
       Inl x \<Rightarrow> (Inl x, self, e)
     | Inr low \<Rightarrow>
        (case get_default artist ''name'' (PStr []) of
           Inl x \<Rightarrow> (Inl x, self, e)
         | Inr name \<Rightarrow>
            (case setitem cch mb_artistid
                    (PDict [(''country'', low), (''cached'', PStr (now w)), (''name'', name)]) of
               Inl x \<Rightarrow> (Inl x, self, e)
             | Inr cch' \<Rightarrow>
                (let self' = self\<lparr>cache := cch'\<rparr> in (Inr low, self', save_cache self' e)))))"

text \<open>
  Lines 109 to 118, the outer handler: log, insert a record with an empty country,
  save, return the empty string. The insertion is outside any \<^verbatim>\<open>try\<close>.
\<close>

definition cache_failure ::
  "world \<Rightarrow> string \<Rightarrow> pyval \<Rightarrow> exn \<Rightarrow> plugin \<Rightarrow> env \<Rightarrow> (exn + pyval) \<times> plugin \<times> env" where
  "cache_failure w mb_artistid cch x self e =
    (let e1 = log_msg DEBUG (ErrorFetching mb_artistid (str_exn w x)) e in
     case setitem cch mb_artistid
            (PDict [(''country'', PStr []), (''cached'', PStr (now w)),
                    (''error'', PStr (str_exn w x))]) of
       Inl y \<Rightarrow> (Inl y, self, e1)
     | Inr cch' \<Rightarrow>
        (let self' = self\<lparr>cache := cch'\<rparr> in (Inr (PStr []), self', save_cache self' e1)))"

text \<open>
  The method. The first argument is the number of nested calls the interpreter
  still allows the walk. The shape test and the call of \<^verbatim>\<open>load_cache\<close> are outside
  the \<^verbatim>\<open>try\<close>, as is the lookup of a cached identifier.
\<close>

definition get_artist_country ::
  "nat \<Rightarrow> world \<Rightarrow> plugin \<Rightarrow> string \<Rightarrow> env \<Rightarrow> (exn + pyval) \<times> plugin \<times> env" where
  "get_artist_country n w self mb_artistid e =
    (if mb_artistid = [] \<or> length mb_artistid \<noteq> 36 \<or> count_list mb_artistid (CHR ''-'') \<noteq> 4
     then (Inr (PStr []), self, e)
     else
       (case load_cache self e of
          (Inl x, self1, e1) \<Rightarrow> (Inl x, self1, e1)
        | (Inr cch, self1, e1) \<Rightarrow>
            (case contains mb_artistid cch of
               Inl x \<Rightarrow> (Inl x, self1, e1)
             | Inr True \<Rightarrow>
                 ((case getitem cch mb_artistid of
                     Inl x \<Rightarrow> Inl x
                   | Inr r \<Rightarrow> get_default r ''country'' (PStr [])), self1, e1)
             | Inr False \<Rightarrow>
                (case fetch_country n w mb_artistid e1 of
                   (Inl x, e2) \<Rightarrow> cache_failure w mb_artistid cch x self1 e2
                 | (Inr (artist, country), e2) \<Rightarrow>
                    (case cache_result w mb_artistid cch artist country self1 e2 of
                       (Inl x, self2, e3) \<Rightarrow> cache_failure w mb_artistid cch x self2 e3
                     | (Inr c, self2, e3) \<Rightarrow> (Inr c, self2, e3))))))"

section \<open>Host integration\<close>

text \<open>
  Modelled from the spec: the host's item class is not part of this repository. An
  item has the fixed fields the plugin reads and its in-memory flexible attributes
  \<^verbatim>\<open>_values_flex\<close>; assigning \<^verbatim>\<open>item['artist_country']\<close> sets the flexible
  attribute in memory, and \<^verbatim>\<open>item.store()\<close>, the host's persistence method, writes
  the attributes to the library. \<open>stored_flex\<close> is what the library holds and
  \<open>store_calls\<close> counts the calls of \<^verbatim>\<open>store\<close>.
\<close>

record item =
  mb_artistid :: string
  artist :: string
  title :: string
  values_flex :: "(string \<times> pyval) list"
  stored_flex :: "(string \<times> pyval) list"
  store_calls :: nat

definition set_artist_country :: "pyval \<Rightarrow> item \<Rightarrow> item" where
  "set_artist_country country it =
     it\<lparr>values_flex := AList.update ''artist_country'' country (values_flex it)\<rparr>"

definition store :: "item \<Rightarrow> item" where
  "store it = it\<lparr>stored_flex := values_flex it, store_calls := Suc (store_calls it)\<rparr>"

text \<open>\<^verbatim>\<open>item._values_flex.get('artist_country')\<close>, tested for truth.\<close>

definition has_country :: "item \<Rightarrow> bool" where
  "has_country it =
     (case map_of (values_flex it) ''artist_country'' of None \<Rightarrow> False | Some v \<Rightarrow> truthy v)"

text \<open>
  The template field. \<^verbatim>\<open>_plugin_instance\<close> is the module's global: \<open>None\<close> until
  \<^verbatim>\<open>get_plugin_instance\<close> creates the instance.
\<close>

definition get_plugin_instance :: "plugin option \<Rightarrow> plugin" where
  "get_plugin_instance g = (case g of None \<Rightarrow> CountryPlugin | Some p \<Rightarrow> p)"

definition tmpl_country ::
  "nat \<Rightarrow> world \<Rightarrow> item \<Rightarrow> plugin option \<Rightarrow> env
     \<Rightarrow> (exn + pyval) \<times> item \<times> plugin option \<times> env" where
  "tmpl_country n w it g e =
    (if has_country it then
       (case map_of (values_flex it) ''artist_country'' of
          None \<Rightarrow> (Inl KeyError, it, g, e)
        | Some v \<Rightarrow> (Inr v, it, g, e))
     else
       (case get_artist_country n w (get_plugin_instance g) (mb_artistid it) e of
          (Inl x, p, e1) \<Rightarrow> (Inl x, it, Some p, e1)
        | (Inr country, p, e1) \<Rightarrow>
            if truthy country then (Inr country, set_artist_country country it, Some p, e1)
            else (Inr country, it, Some p, e1)))"

text \<open>
  The loop of the subcommand over the items the query matched. The items are
  objects the loop changes in place, so the list is returned as it stands when the
  loop ends or an exception leaves it: \<open>Some x\<close> in the first component is the
  exception that ended the command.
\<close>

fun update_items ::
  "nat \<Rightarrow> world \<Rightarrow> item list \<Rightarrow> nat \<Rightarrow> plugin \<Rightarrow> env
     \<Rightarrow> exn option \<times> item list \<times> nat \<times> plugin \<times> env" where
  "update_items n w [] updated self e = (None, [], updated, self, e)"
| "update_items n w (it # its) updated self e =
    (if \<not> has_country it then
       (case get_artist_country n w self (mb_artistid it) e of
          (Inl x, self1, e1) \<Rightarrow> (Some x, it # its, updated, self1, e1)
        | (Inr country, self1, e1) \<Rightarrow>
            if truthy country then
              (let it' = store (set_artist_country country it);
                   e2 = log_msg DEBUG (SetCountry country (artist it') (title it')) e1
               in case update_items n w its (updated + 1) self1 e2 of
                    (r, its', k, self2, e3) \<Rightarrow> (r, it' # its', k, self2, e3))
            else
              (case update_items n w its updated self1 e1 of
                 (r, its', k, self2, e3) \<Rightarrow> (r, it # its', k, self2, e3)))
     else
       (case update_items n w its updated self e of
          (r, its', k, self2, e3) \<Rightarrow> (r, it # its', k, self2, e3)))"

definition artistcountry_func ::
  "nat \<Rightarrow> world \<Rightarrow> item list \<Rightarrow> plugin \<Rightarrow> env
     \<Rightarrow> exn option \<times> item list \<times> plugin \<times> env" where
  "artistcountry_func n w items self e =
    (case update_items n w items 0 self (log_msg INFO (Processing (length items)) e) of
       (Some x, items', updated, self1, e1) \<Rightarrow> (Some x, items', self1, e1)
     | (None, items', updated, self1, e1) \<Rightarrow>
         (None, items', self1, log_msg INFO (Updated updated) e1))"

section \<open>Sample inputs\<close>

definition sample_id :: string where
  "sample_id = ''5b11f4ce-a62d-471e-81fc-a69a8278c7da''"

text \<open>A service that cannot be reached.\<close>

definition offline :: world where
  "offline = \<lparr>get_artist_by_id = (\<lambda>i. Inl (ServiceError ''offline'')),
              get_area_by_id = (\<lambda>i. Inl (ServiceError ''offline'')),
              now = ''2024-01-01T00:00:00'',
              str_exn = (\<lambda>x. ''offline'')\<rparr>"

definition fresh_env :: env where
  "fresh_env = \<lparr>cache_file = Absent, writable = True, calls = [], logged = []\<rparr>"

definition warm_plugin :: plugin where
  "warm_plugin = \<lparr>cache = PDict [(sample_id, PDict [(''country'', PStr ''de''),
      (''cached'', PStr ''2023-05-17T10:21:04''), (''name'', PStr ''Kraftwerk'')])]\<rparr>"

definition tagged_item :: item where
  "tagged_item = \<lparr>mb_artistid = sample_id, artist = ''Kraftwerk'', title = ''Autobahn'',
      values_flex = [(''artist_country'', PStr ''de'')], stored_flex = [], store_calls = 0\<rparr>"

definition untagged_item :: item where
  "untagged_item = \<lparr>mb_artistid = sample_id, artist = ''Kraftwerk'', title = ''Autobahn'',
      values_flex = [], stored_flex = [], store_calls = 0\<rparr>"

text \<open>
  A small part of the service: an artist with a country of its own, an artist
  with only an area (a district of Hamburg, two steps below Germany), and an artist
  whose area the service does not know.
\<close>

definition walk_id :: string where
  "walk_id = ''0383dadf-2a4e-4d10-a46a-e9e041da8eb3''"

definition lost_id :: string where
  "lost_id = ''f27ec8db-af05-4f36-916e-3d57f91ecf5e''"

definition germany :: pyval where
  "germany = PDict [(''id'', PStr ''germany''), (''type'', PStr ''Country''),
                    (''name'', PStr ''Germany''), (''iso-3166-1-code-list'', PList [PStr ''DE''])]"

definition hamburg :: pyval where
  "hamburg = PDict [(''id'', PStr ''hamburg''), (''type'', PStr ''Subdivision''),
                    (''name'', PStr ''Hamburg'')]"

definition st_pauli :: pyval where
  "st_pauli = PDict [(''id'', PStr ''st-pauli''), (''type'', PStr ''District''),
                     (''name'', PStr ''St. Pauli'')]"

definition atlantis :: pyval where
  "atlantis = PDict [(''id'', PStr ''atlantis''), (''name'', PStr ''Atlantis'')]"

definition part_of :: "string \<Rightarrow> pyval \<Rightarrow> pyval" where
  "part_of direction area =
     PDict [(''type'', PStr ''part of''), (''direction'', PStr direction), (''area'', area)]"

definition area_rels :: "string \<Rightarrow> pyval list \<Rightarrow> pyval" where
  "area_rels i rels =
     PDict [(''area'', PDict [(''id'', PStr i), (''area-relation-list'', PList rels)])]"

definition musicbrainz :: world where
  "musicbrainz =
    \<lparr>get_artist_by_id = (\<lambda>i.
        if i = sample_id then
          Inr (PDict [(''artist'', PDict [(''id'', PStr i), (''name'', PStr ''Kraftwerk''),
                                          (''country'', PStr ''DE''), (''area'', germany)])])
        else if i = walk_id then
          Inr (PDict [(''artist'', PDict [(''id'', PStr i), (''name'', PStr ''Die Sterne''),
                                          (''area'', st_pauli)])])
        else if i = lost_id then
          Inr (PDict [(''artist'', PDict [(''id'', PStr i), (''name'', PStr ''Nemo''),
                                          (''area'', atlantis)])])
        else Inl (ServiceError ''not found'')),
     get_area_by_id = (\<lambda>a.
        if a = PStr ''st-pauli'' then
          Inr (area_rels ''st-pauli'' [part_of ''forward'' atlantis, part_of ''backward'' hamburg])
        else if a = PStr ''hamburg'' then
          Inr (area_rels ''hamburg'' [part_of ''backward'' germany])
        else Inl (ServiceError ''not found'')),
     now = ''2024-01-01T00:00:00'',
     str_exn = (\<lambda>x. case x of ServiceError m \<Rightarrow> m | _ \<Rightarrow> ''error'')\<rparr>"

text \<open>A malformed hierarchy: every area is part of the city \<open>loop\<close>, \<open>loop\<close> included.\<close>

definition loop :: pyval where
  "loop = PDict [(''id'', PStr ''loop''), (''type'', PStr ''City'')]"

definition looping :: world where
  "looping = offline\<lparr>get_area_by_id := (\<lambda>a. Inr (area_rels ''loop'' [part_of ''backward'' loop]))\<rparr>"

text \<open>Items of a library: a track without a MusicBrainz identifier, a track of an
  artist the service cannot be asked about, and a track whose stored country is
  the empty string.\<close>

definition plain_item :: item where
  "plain_item = \<lparr>mb_artistid = [], artist = ''Unknown'', title = ''Track 01'',
      values_flex = [], stored_flex = [], store_calls = 0\<rparr>"

definition walk_item :: item where
  "walk_item = \<lparr>mb_artistid = walk_id, artist = ''Die Sterne'', title = ''Universal Tellerwaescher'',
      values_flex = [], stored_flex = [], store_calls = 0\<rparr>"

definition blank_item :: item where
  "blank_item = \<lparr>mb_artistid = sample_id, artist = ''Kraftwerk'', title = ''Autobahn'',
      values_flex = [(''artist_country'', PStr [])],
      stored_flex = [(''artist_country'', PStr [])], store_calls = 1\<rparr>"

section \<open>Identifier shape\<close>

lemma sample_id_shape:
  "sample_id \<noteq> [] \<and> length sample_id = 36 \<and> count_list sample_id (CHR ''-'') = 4"
  by (simp add: sample_id_def)

text \<open>
  C2. An identifier that is empty, not 36 characters long or without exactly four
  hyphens resolves to the empty string: the call returns normally, and neither the
  plugin (its cache) nor the environment (remote calls, cache file, log) changes.
\<close>

theorem malformed_id_empty:
  assumes "i = [] \<or> length i \<noteq> 36 \<or> count_list i (CHR ''-'') \<noteq> 4"
  shows "get_artist_country n w self i e = (Inr (PStr []), self, e)"
  using assms by (simp add: get_artist_country_def)

theorem malformed_id_empty_witness:
  "length ''not-an-id'' \<noteq> 36 \<and>
   get_artist_country 0 offline CountryPlugin ''not-an-id'' fresh_env
     = (Inr (PStr []), CountryPlugin, fresh_env)"
  using malformed_id_empty [of "''not-an-id''" 0 offline CountryPlugin fresh_env] by simp

section \<open>Cached identifiers\<close>

lemma load_cache_calls: "load_cache self e = (c, self1, e1) \<Longrightarrow> calls e1 = calls e"
  by (auto simp: load_cache_def log_msg_def split: if_splits file_content.splits)

text \<open>
  C1. An artist identifier has the shape the data model gives it: 36 characters,
  four of them hyphens. For every such identifier that is a key of the loaded
  cache, \<^verbatim>\<open>get_artist_country\<close> returns the \<^verbatim>\<open>country\<close> of the cached record, or
  the empty string when the record has none, whether or not that value is empty.
  The plugin and the environment are as \<^verbatim>\<open>load_cache\<close> left them, and the list of
  remote calls is the one before the call: no remote call is made.
\<close>

theorem cached_id_no_remote_call:
  assumes "i \<noteq> [] \<and> length i = 36 \<and> count_list i (CHR ''-'') = 4"
    and "load_cache self e = (Inr (PDict kvs), selfL, eL)"
    and "map_of kvs i = Some (PDict r)"
  shows "get_artist_country n w self i e
           = (Inr (case map_of r ''country'' of None \<Rightarrow> PStr [] | Some c \<Rightarrow> c), selfL, eL)
         \<and> calls eL = calls e"
  using assms load_cache_calls [OF assms(2)]
  by (auto simp: get_artist_country_def split: option.splits)

theorem cached_id_no_remote_call_witness:
  "load_cache warm_plugin fresh_env = (Inr (cache warm_plugin), warm_plugin, fresh_env)
   \<and> get_artist_country 0 musicbrainz warm_plugin sample_id fresh_env
     = (Inr (PStr ''de''), warm_plugin, fresh_env)
   \<and> calls fresh_env = []"
proof -
  have l: "load_cache warm_plugin fresh_env
      = (Inr (PDict [(sample_id, PDict [(''country'', PStr ''de''),
           (''cached'', PStr ''2023-05-17T10:21:04''), (''name'', PStr ''Kraftwerk'')])]),
         warm_plugin, fresh_env)"
    by (simp add: load_cache_def warm_plugin_def)
  from cached_id_no_remote_call [OF sample_id_shape l, of _ 0 musicbrainz] l
  show ?thesis by (simp add: warm_plugin_def fresh_env_def)
qed

text \<open>
  The keys the plugin itself puts into the cache are identifiers of that shape:
  a call that changes the cached mapping was made with a well-shaped identifier.
\<close>

lemma cached_keys_have_shape:
  assumes "get_artist_country n w self i e = (r, self', e')"
    and "cache self' \<noteq> cache self"
  shows "i \<noteq> [] \<and> length i = 36 \<and> count_list i (CHR ''-'') = 4"
  using assms by (auto simp: get_artist_country_def split: if_splits)

section \<open>Template field\<close>

text \<open>
  C10. For an item whose flexible attribute \<^verbatim>\<open>artist_country\<close> is non-empty, the
  template field returns the stored value; the item, the module's plugin instance
  (so no cache is loaded) and the environment (so no remote call is made) are
  unchanged.
\<close>

theorem stored_country_returned:
  assumes "map_of (values_flex it) ''artist_country'' = Some v" and "truthy v"
  shows "tmpl_country n w it g e = (Inr v, it, g, e)"
  using assms by (simp add: tmpl_country_def has_country_def)

theorem stored_country_returned_witness:
  "tmpl_country 0 offline tagged_item None fresh_env
     = (Inr (PStr ''de''), tagged_item, None, fresh_env)"
  using stored_country_returned [of tagged_item "PStr ''de''" 0 offline None fresh_env]
  by (simp add: tagged_item_def)

text \<open>
  C5. Evaluating the template field never calls \<^verbatim>\<open>item.store\<close>: the count of
  calls and what the library holds for the item are as before, also when the field
  resolves a non-empty country, which is then assigned to the item in memory.
\<close>

theorem template_never_stores:
  assumes "tmpl_country n w it g e = (r, it', g', e')"
  shows "store_calls it' = store_calls it \<and> stored_flex it' = stored_flex it
         \<and> (\<forall>c. r = Inr c \<and> truthy c \<longrightarrow> map_of (values_flex it') ''artist_country'' = Some c)"
  using assms
  by (auto simp: tmpl_country_def has_country_def set_artist_country_def update_Some_unfold
           split: if_splits option.splits sum.splits prod.splits)

theorem template_never_stores_witness:
  "tmpl_country 0 offline untagged_item (Some warm_plugin) fresh_env
     = (Inr (PStr ''de''), set_artist_country (PStr ''de'') untagged_item,
        Some warm_plugin, fresh_env)
   \<and> values_flex (set_artist_country (PStr ''de'') untagged_item)
       = [(''artist_country'', PStr ''de'')]
   \<and> store_calls (set_artist_country (PStr ''de'') untagged_item) = store_calls untagged_item
   \<and> stored_flex (set_artist_country (PStr ''de'') untagged_item) = stored_flex untagged_item"
proof -
  have run: "tmpl_country 0 offline untagged_item (Some warm_plugin) fresh_env
     = (Inr (PStr ''de''), set_artist_country (PStr ''de'') untagged_item,
        Some warm_plugin, fresh_env)"
    using sample_id_shape
    by (simp add: tmpl_country_def has_country_def untagged_item_def get_plugin_instance_def
          get_artist_country_def load_cache_def warm_plugin_def)
  have "values_flex (set_artist_country (PStr ''de'') untagged_item)
       = [(''artist_country'', PStr ''de'')]"
    by (simp add: set_artist_country_def untagged_item_def)
  with run template_never_stores [OF run] show ?thesis by simp
qed

section \<open>Cache persistence\<close>

text \<open>
  C8. When the cache file can be written, saving a cache mapping and loading it
  with a new plugin instance gives the same mapping.
\<close>

theorem cache_round_trip:
  assumes "writable e"
  shows "load_cache CountryPlugin (save_cache \<lparr>cache = PDict kvs\<rparr> e)
           = (Inr (PDict kvs), \<lparr>cache = PDict kvs\<rparr>, e\<lparr>cache_file := Json (PDict kvs)\<rparr>)"
  using assms by (simp add: load_cache_def save_cache_def CountryPlugin_def)

theorem cache_round_trip_witness:
  "writable fresh_env
   \<and> fst (load_cache CountryPlugin (save_cache warm_plugin fresh_env)) = Inr (cache warm_plugin)"
  using cache_round_trip [of fresh_env]
  by (simp add: warm_plugin_def fresh_env_def)

section \<open>Records written to the cache\<close>

lemma lower_char_not_upper: "lower_char c \<notin> set uppercase"
  by (auto simp: lower_char_def uppercase_def lowercase_def)

lemma load_cache_fst: "load_cache self e = (Inr c, self1, e1) \<Longrightarrow> cache self1 = c"
  by (auto simp: load_cache_def split: if_splits file_content.splits)

lemma load_cache_raises: "load_cache self e = (Inl x, self1, e1) \<Longrightarrow> self1 = self \<and> e1 = e"
  by (auto simp: load_cache_def split: if_splits file_content.splits)

lemma cache_failure_record:
  assumes "cache_failure w i c x self e = (r, self', e')"
  shows "cache self' = cache self
     \<or> (\<exists>kvs rec. c = PDict kvs \<and> cache self' = PDict (AList.update i rec kvs)
           \<and> getitem rec ''country'' = Inr (PStr []) \<and> r = Inr (PStr []))"
  using assms by (cases c) (auto simp: cache_failure_def Let_def)

lemma cache_result_record:
  assumes "cache_result w i c a country self e = (r, self', e')"
  shows "(\<exists>x. r = Inl x \<and> self' = self \<and> e' = e)
     \<or> (\<exists>kvs rec s. c = PDict kvs \<and> cache self' = PDict (AList.update i rec kvs)
           \<and> getitem rec ''country'' = Inr (PStr s) \<and> (\<forall>ch\<in>set s. ch \<notin> set uppercase)
           \<and> r = Inr (PStr s))"
proof (cases "truthy country")
  case True
  then show ?thesis using assms
    by (cases country; cases c; cases a)
       (auto simp: cache_result_def Let_def lower_char_not_upper split: option.splits)
next
  case False
  then show ?thesis using assms
    by (cases c; cases a) (auto simp: cache_result_def Let_def split: option.splits)
qed

text \<open>
  C9. A call of \<^verbatim>\<open>get_artist_country\<close> either leaves the cache as it was (or as
  \<^verbatim>\<open>load_cache\<close> loaded it), or has written exactly one record, under the
  identifier it was called with: the record's \<^verbatim>\<open>country\<close> is a string without an
  upper-case letter (the empty string included), and it is the value returned.
\<close>

theorem written_record_lowercase:
  assumes "get_artist_country n w self i e = (r, self', e')"
  shows "cache self' = cache self \<or> fst (load_cache self e) = Inr (cache self')
     \<or> (\<exists>kvs rec s. fst (load_cache self e) = Inr (PDict kvs)
           \<and> cache self' = PDict (AList.update i rec kvs)
           \<and> getitem rec ''country'' = Inr (PStr s) \<and> (\<forall>ch\<in>set s. ch \<notin> set uppercase)
           \<and> r = Inr (PStr s))"
proof (cases "i = [] \<or> length i \<noteq> 36 \<or> count_list i (CHR ''-'') \<noteq> 4")
  case True
  with assms show ?thesis by (simp add: get_artist_country_def)
next
  case False
  obtain lc self1 e1 where l: "load_cache self e = (lc, self1, e1)"
    by (cases "load_cache self e") auto
  show ?thesis
  proof (cases lc)
    case (Inl x)
    with l load_cache_raises [of self e x self1 e1] assms False show ?thesis
      by (auto simp: get_artist_country_def)
  next
    case lc: (Inr c)
    with l have c1: "cache self1 = c" by (simp add: load_cache_fst)
    show ?thesis
    proof (cases "contains i c")
      case (Inl x)
      with assms False l lc c1 show ?thesis by (auto simp: get_artist_country_def)
    next
      case (Inr b)
      show ?thesis
      proof (cases b)
        case True
        with Inr assms False l lc c1 show ?thesis by (auto simp: get_artist_country_def)
      next
        case nb: False
        obtain q e2 where fr: "fetch_country n w i e1 = (q, e2)"
          by (cases "fetch_country n w i e1") auto
        show ?thesis
        proof (cases q)
          case (Inl x)
          with fr nb Inr assms False l lc
          have "cache_failure w i c x self1 e2 = (r, self', e')"
            by (simp add: get_artist_country_def)
          from cache_failure_record [OF this] c1 l lc show ?thesis by auto
        next
          case q: (Inr ac)
          obtain a country where ac: "ac = (a, country)" by (cases ac) auto
          obtain r2 self2 e3 where cr: "cache_result w i c a country self1 e2 = (r2, self2, e3)"
            by (cases "cache_result w i c a country self1 e2") auto
          from cache_result_record [OF cr] show ?thesis
          proof
            assume "\<exists>x. r2 = Inl x \<and> self2 = self1 \<and> e3 = e2"
            then obtain x where x: "r2 = Inl x" "self2 = self1" "e3 = e2" by auto
            with cr q ac fr nb Inr assms False l lc
            have "cache_failure w i c x self1 e2 = (r, self', e')"
              by (simp add: get_artist_country_def)
            from cache_failure_record [OF this] c1 l lc show ?thesis by auto
          next
            assume w: "\<exists>kvs rec s. c = PDict kvs \<and> cache self2 = PDict (AList.update i rec kvs)
              \<and> getitem rec ''country'' = Inr (PStr s) \<and> (\<forall>ch\<in>set s. ch \<notin> set uppercase)
              \<and> r2 = Inr (PStr s)"
            then obtain s where "r2 = Inr (PStr s)" by auto
            with cr q ac fr nb Inr assms False l lc
            have "r = r2" "self' = self2"
              by (simp_all add: get_artist_country_def)
            with w l lc show ?thesis by auto
          qed
        qed
      qed
    qed
  qed
qed

lemma run_sample:
  "get_artist_country 0 musicbrainz CountryPlugin sample_id fresh_env
     = (Inr (PStr ''de''),
         \<lparr>cache = PDict [(sample_id, PDict [(''country'', PStr ''de''),
              (''cached'', PStr ''2024-01-01T00:00:00''), (''name'', PStr ''Kraftwerk'')])]\<rparr>,
         \<lparr>cache_file = Json (PDict [(sample_id, PDict [(''country'', PStr ''de''),
              (''cached'', PStr ''2024-01-01T00:00:00''), (''name'', PStr ''Kraftwerk'')])]),
          writable = True, calls = [GetArtist sample_id], logged = []\<rparr>)"
  by code_simp

theorem written_record_lowercase_witness:
  "get_artist_country 0 musicbrainz CountryPlugin sample_id fresh_env
     = (Inr (PStr ''de''),
         \<lparr>cache = PDict [(sample_id, PDict [(''country'', PStr ''de''),
              (''cached'', PStr ''2024-01-01T00:00:00''), (''name'', PStr ''Kraftwerk'')])]\<rparr>,
         \<lparr>cache_file = Json (PDict [(sample_id, PDict [(''country'', PStr ''de''),
              (''cached'', PStr ''2024-01-01T00:00:00''), (''name'', PStr ''Kraftwerk'')])]),
          writable = True, calls = [GetArtist sample_id], logged = []\<rparr>)
   \<and> fst (load_cache CountryPlugin fresh_env) = Inr (PDict [])
   \<and> CHR ''d'' \<notin> set uppercase \<and> CHR ''e'' \<notin> set uppercase"
  using written_record_lowercase [OF run_sample] run_sample
  by (simp add: load_cache_def CountryPlugin_def fresh_env_def)

section \<open>Failures\<close>

text \<open>
  C4. For an identifier of valid shape that is not a key of the loaded cache: when
  the remote artist lookup raises, the handler logs the error at debug level,
  inserts a record with an empty country and the error text, saves, and returns
  the empty string; when the artist has no country but an area and the walk up the
  hierarchy raises, the exception is swallowed with a debug message, a record
  with an empty country and the artist's name is inserted and saved, and the
  empty string is returned. In both cases the call returns normally.
\<close>

theorem failures_cached_empty:
  assumes "i \<noteq> [] \<and> length i = 36 \<and> count_list i (CHR ''-'') = 4"
    and "load_cache self e = (Inr (PDict kvs), selfL, eL)"
    and "map_of kvs i = None"
    and "eF = eL\<lparr>calls := calls eL @ [GetArtist i]\<rparr>"
  shows "(get_artist_by_id w i = Inl x \<longrightarrow>
           (let rec = PDict [(''country'', PStr []), (''cached'', PStr (now w)),
                             (''error'', PStr (str_exn w x))];
                self' = selfL\<lparr>cache := PDict (AList.update i rec kvs)\<rparr>
            in get_artist_country n w self i e
                 = (Inr (PStr []), self',
                    save_cache self' (log_msg DEBUG (ErrorFetching i (str_exn w x)) eF))))
       \<and> (get_artist_by_id w i = Inr ai \<and> getitem ai ''artist'' = Inr (PDict a)
            \<and> get_default (PDict a) ''country'' (PStr []) = Inr cv \<and> \<not> truthy cv
            \<and> map_of a ''area'' = Some area
            \<and> find_top_area n w area eF = (Inl y, eW) \<longrightarrow>
           (let rec = PDict [(''country'', PStr []), (''cached'', PStr (now w)),
                             (''name'', case map_of a ''name'' of None \<Rightarrow> PStr [] | Some v \<Rightarrow> v)];
                self' = selfL\<lparr>cache := PDict (AList.update i rec kvs)\<rparr>
            in get_artist_country n w self i e
                 = (Inr (PStr []), self',
                    save_cache self' (log_msg DEBUG (NoCountryFromArea i) eW))))"
  using assms
  by (auto simp: get_artist_country_def fetch_country_def cache_failure_def cache_result_def
        country_from_area_def Let_def split: option.splits)

theorem failures_cached_empty_witness:
  "get_artist_country 0 offline CountryPlugin sample_id fresh_env
     = (Inr (PStr []),
         \<lparr>cache = PDict [(sample_id, PDict [(''country'', PStr []),
              (''cached'', PStr ''2024-01-01T00:00:00''), (''error'', PStr ''offline'')])]\<rparr>,
         \<lparr>cache_file = Json (PDict [(sample_id, PDict [(''country'', PStr []),
              (''cached'', PStr ''2024-01-01T00:00:00''), (''error'', PStr ''offline'')])]),
          writable = True, calls = [GetArtist sample_id],
          logged = [(DEBUG, ErrorFetching sample_id ''offline'')]\<rparr>)
   \<and> get_artist_country 1 musicbrainz CountryPlugin lost_id fresh_env
     = (Inr (PStr []),
         \<lparr>cache = PDict [(lost_id, PDict [(''country'', PStr []),
              (''cached'', PStr ''2024-01-01T00:00:00''), (''name'', PStr ''Nemo'')])]\<rparr>,
         \<lparr>cache_file = Json (PDict [(lost_id, PDict [(''country'', PStr []),
              (''cached'', PStr ''2024-01-01T00:00:00''), (''name'', PStr ''Nemo'')])]),
          writable = True, calls = [GetArtist lost_id, GetArea (PStr ''atlantis'')],
          logged = [(DEBUG, NoCountryFromArea lost_id)]\<rparr>)"
proof -
  have l: "load_cache CountryPlugin fresh_env = (Inr (PDict []), \<lparr>cache = PDict []\<rparr>, fresh_env)"
    by (simp add: load_cache_def CountryPlugin_def fresh_env_def)
  have s: "lost_id \<noteq> [] \<and> length lost_id = 36 \<and> count_list lost_id (CHR ''-'') = 4"
    by (simp add: lost_id_def)
  have a: "get_artist_by_id offline sample_id = Inl (ServiceError ''offline'')"
    by (simp add: offline_def)
  have b: "get_artist_by_id musicbrainz lost_id = Inr (PDict [(''artist'',
             PDict [(''id'', PStr lost_id), (''name'', PStr ''Nemo''), (''area'', atlantis)])])"
    by (simp add: musicbrainz_def lost_id_def sample_id_def walk_id_def)
  have f: "find_top_area 1 musicbrainz atlantis (fresh_env\<lparr>calls := calls fresh_env @ [GetArtist lost_id]\<rparr>)
             = (Inl (ServiceError ''not found''),
                fresh_env\<lparr>calls := [GetArtist lost_id, GetArea (PStr ''atlantis'')]\<rparr>)"
    by (simp add: new_area_def backward_from_def atlantis_def musicbrainz_def fresh_env_def)
  have A: "get_artist_country 0 offline CountryPlugin sample_id fresh_env
     = (Inr (PStr []),
         \<lparr>cache = PDict [(sample_id, PDict [(''country'', PStr []),
              (''cached'', PStr ''2024-01-01T00:00:00''), (''error'', PStr ''offline'')])]\<rparr>,
         \<lparr>cache_file = Json (PDict [(sample_id, PDict [(''country'', PStr []),
              (''cached'', PStr ''2024-01-01T00:00:00''), (''error'', PStr ''offline'')])]),
          writable = True, calls = [GetArtist sample_id],
          logged = [(DEBUG, ErrorFetching sample_id ''offline'')]\<rparr>)"
    using failures_cached_empty [where w = offline and n = 0 and x = "ServiceError ''offline''",
         OF sample_id_shape l _ refl] a
    by (simp add: Let_def save_cache_def log_msg_def fresh_env_def offline_def)
  have B: "get_artist_country 1 musicbrainz CountryPlugin lost_id fresh_env
     = (Inr (PStr []),
         \<lparr>cache = PDict [(lost_id, PDict [(''country'', PStr []),
              (''cached'', PStr ''2024-01-01T00:00:00''), (''name'', PStr ''Nemo'')])]\<rparr>,
         \<lparr>cache_file = Json (PDict [(lost_id, PDict [(''country'', PStr []),
              (''cached'', PStr ''2024-01-01T00:00:00''), (''name'', PStr ''Nemo'')])]),
          writable = True, calls = [GetArtist lost_id, GetArea (PStr ''atlantis'')],
          logged = [(DEBUG, NoCountryFromArea lost_id)]\<rparr>)"
    using failures_cached_empty [where w = musicbrainz and n = 1
         and ai = "PDict [(''artist'',
             PDict [(''id'', PStr lost_id), (''name'', PStr ''Nemo''), (''area'', atlantis)])]"
         and a = "[(''id'', PStr lost_id), (''name'', PStr ''Nemo''), (''area'', atlantis)]"
         and cv = "PStr []" and area = atlantis and y = "ServiceError ''not found''"
         and eW = "fresh_env\<lparr>calls := [GetArtist lost_id, GetArea (PStr ''atlantis'')]\<rparr>",
         OF s l _ refl] b f
    by (simp add: Let_def save_cache_def log_msg_def fresh_env_def musicbrainz_def)
  from A B show ?thesis by simp
qed

section \<open>The walk up the area hierarchy\<close>

lemma new_area_parents: "fst (new_area w area e) = parents w area"
  by (simp add: new_area_def parents_def split: sum.splits)

lemma new_area_calls: "length (calls (snd (new_area w area e))) \<le> Suc (length (calls e))"
  by (simp add: new_area_def split: sum.splits)

lemma walk_step:
  assumes "next_area w a = Some b"
  shows "find_top_area (Suc n) w a e = find_top_area n w b (snd (new_area w a e))"
proof -
  obtain r e1 where na: "new_area w a e = (r, e1)" by (cases "new_area w a e") auto
  with new_area_parents [of w a e] have p: "parents w a = r" by simp
  from assms p na show ?thesis
    by (auto simp: next_area_def split: sum.splits list.splits if_splits)
qed

lemma walk_stop:
  assumes "next_area w a = None"
  shows "find_top_area (Suc n) w a e = find_top_area (Suc 0) w a e"
proof -
  obtain r e1 where na: "new_area w a e = (r, e1)" by (cases "new_area w a e") auto
  with new_area_parents [of w a e] have p: "parents w a = r" by simp
  from assms p na show ?thesis
    by (auto simp: next_area_def split: sum.splits list.splits if_splits bool.splits)
qed

lemma walk_value: "fst (find_top_area n w area e) = fst (find_top_area n w area e')"
proof (induction n arbitrary: area e e')
  case 0
  show ?case by simp
next
  case (Suc n)
  show ?case
  proof (cases "next_area w area")
    case None
    obtain r e1 where na: "new_area w area e = (r, e1)" by (cases "new_area w area e") auto
    obtain r' e1' where na': "new_area w area e' = (r', e1')" by (cases "new_area w area e'") auto
    from na na' new_area_parents [of w area e] new_area_parents [of w area e']
    have "r' = r" by simp
    with None na na' new_area_parents [of w area e] show ?thesis
      by (auto simp: next_area_def split: sum.splits list.splits if_splits bool.splits)
  next
    case (Some b)
    from walk_step [OF Some] Suc.IH show ?thesis by simp
  qed
qed

lemma walk_bound: "length (calls (snd (find_top_area n w area e))) \<le> length (calls e) + n"
proof (induction n arbitrary: area e)
  case 0
  show ?case by simp
next
  case (Suc n)
  obtain r e1 where na: "new_area w area e = (r, e1)" by (cases "new_area w area e") auto
  with new_area_calls [of w area e] have c: "length (calls e1) \<le> Suc (length (calls e))" by simp
  show ?case
  proof (cases "next_area w area")
    case None
    with na new_area_parents [of w area e] c show ?thesis
      by (auto simp: next_area_def split: sum.splits list.splits if_splits bool.splits)
  next
    case (Some b)
    from walk_step [OF Some, of n e] na Suc.IH [of b e1] c show ?thesis by simp
  qed
qed

lemma chain_Cons:
  "chain w (a # b # bs) = (next_area w a = Some b \<and> chain w (b # bs))"
proof
  assume c: "chain w (a # b # bs)"
  then have "next_area w a = Some b" by (auto simp: chain_def)
  moreover have "chain w (b # bs)"
    unfolding chain_def
  proof (intro allI impI)
    fix j assume "Suc j < length (b # bs)"
    with c have "next_area w ((a # b # bs) ! Suc j) = Some ((a # b # bs) ! Suc (Suc j))"
      unfolding chain_def by (metis Suc_less_eq length_Cons)
    then show "next_area w ((b # bs) ! j) = Some ((b # bs) ! Suc j)" by simp
  qed
  ultimately show "next_area w a = Some b \<and> chain w (b # bs)" by simp
next
  assume h: "next_area w a = Some b \<and> chain w (b # bs)"
  show "chain w (a # b # bs)"
    unfolding chain_def
  proof (intro allI impI)
    fix j assume j: "Suc j < length (a # b # bs)"
    show "next_area w ((a # b # bs) ! j) = Some ((a # b # bs) ! Suc j)"
    proof (cases j)
      case 0
      with h show ?thesis by simp
    next
      case (Suc k)
      with j h show ?thesis by (simp add: chain_def)
    qed
  qed
qed

lemma walk_reaches_end:
  assumes "chain w (area # as)" and "next_area w (last (area # as)) = None" and "length as < n"
  shows "find_top_area n w area e = find_top_area (Suc (length as)) w area e
         \<and> fst (find_top_area n w area e) = fst (find_top_area (Suc 0) w (last (area # as)) e)"
  using assms
proof (induction as arbitrary: area n e)
  case Nil
  then obtain m where "n = Suc m" by (cases n) auto
  with Nil walk_stop [of w area m e] show ?case by (simp del: find_top_area.simps)
next
  case (Cons b bs)
  then obtain m where n: "n = Suc m" and m: "length bs < m" by (cases n) auto
  from Cons.prems(1) have s: "next_area w area = Some b" and c: "chain w (b # bs)"
    by (simp_all add: chain_Cons)
  from Cons.prems(2) have l: "next_area w (last (b # bs)) = None" by simp
  define e1 where "e1 = snd (new_area w area e)"
  from Cons.IH [OF c l m, of e1]
  have ih1: "find_top_area m w b e1 = find_top_area (Suc (length bs)) w b e1"
    and ih2: "fst (find_top_area m w b e1) = fst (find_top_area (Suc 0) w (last (b # bs)) e1)"
    by blast+
  have a: "find_top_area n w area e = find_top_area m w b e1"
    unfolding n e1_def by (rule walk_step [OF s])
  have b: "find_top_area (Suc (length (b # bs))) w area e = find_top_area (Suc (length bs)) w b e1"
    unfolding e1_def length_Cons by (rule walk_step [OF s])
  have v: "fst (find_top_area (Suc 0) w (last (b # bs)) e1)
             = fst (find_top_area (Suc 0) w (last (b # bs)) e)"
    by (rule walk_value)
  have t: "last (area # b # bs) = last (b # bs)" by simp
  from a b ih1 have "find_top_area n w area e = find_top_area (Suc (length (b # bs))) w area e"
    by (simp del: find_top_area.simps)
  moreover from a ih2 v t
  have "fst (find_top_area n w area e) = fst (find_top_area (Suc 0) w (last (area # b # bs)) e)"
    by (simp del: find_top_area.simps)
  ultimately show ?case by blast
qed

lemma walk_exhausts:
  assumes "chain w (area # as)" and "length as = n"
  shows "fst (find_top_area n w area e) = Inl RecursionError"
  using assms
proof (induction as arbitrary: area n e)
  case Nil
  then show ?case by simp
next
  case (Cons b bs)
  then obtain m where n: "n = Suc m" and m: "length bs = m" by (cases n) auto
  from Cons.prems(1) have s: "next_area w area = Some b" and c: "chain w (b # bs)"
    by (simp_all add: chain_Cons)
  from Cons.IH [OF c m] n walk_step [OF s, of m e] show ?case
    by (simp del: find_top_area.simps)
qed

lemma loop_next: "next_area looping loop = Some loop"
  by (simp add: next_area_def parents_def backward_from_def has_country_iso_code_def
        looping_def loop_def area_rels_def part_of_def)

lemma loop_walk:
  "find_top_area n looping loop e
     = (Inl RecursionError, e\<lparr>calls := calls e @ replicate n (GetArea (PStr ''loop''))\<rparr>)"
proof (induction n arbitrary: e)
  case 0
  show ?case by simp
next
  case (Suc n)
  have "snd (new_area looping loop e) = e\<lparr>calls := calls e @ [GetArea (PStr ''loop'')]\<rparr>"
    by (simp add: new_area_def loop_def)
  with walk_step [OF loop_next, of n e] Suc.IH show ?case
    by (simp add: replicate_app_Cons_same del: find_top_area.simps)
qed

text \<open>
  C7, as stated, fails: \<^verbatim>\<open>_find_top_area\<close> has no guard against a cycle. Where the
  service makes an area part of itself, the walk never reaches an area without
  backward relations or a country: whatever number of nested calls the interpreter
  allows, the walk looks the same area up that many times and ends with
  \<^verbatim>\<open>RecursionError\<close>.
\<close>

theorem cyclic_hierarchy_counterexample:
  "next_area looping loop = Some loop
   \<and> (\<forall>n. find_top_area n looping loop fresh_env
            = (Inl RecursionError, fresh_env\<lparr>calls := replicate n (GetArea (PStr ''loop''))\<rparr>))"
  by (simp add: loop_next loop_walk fresh_env_def)

text \<open>
  C7, amended. The traversal always terminates: it makes at most as many lookups
  as the interpreter allows nested calls. When the chain of areas the walk
  follows from \<open>area\<close> ends (at an area with no backward relation, before a country
  with a code list, or at a failing access) after fewer steps than that, the walk
  ends at the chain's last area, with the result of that area alone, and a larger
  limit changes nothing. When the chain has as many steps as calls are allowed,
  as every chain of a cyclic hierarchy does for some limit, the walk ends with
  \<^verbatim>\<open>RecursionError\<close>.
\<close>

theorem walk_terminates:
  "length (calls (snd (find_top_area n w area e))) \<le> length (calls e) + n
   \<and> (chain w (area # as) \<and> next_area w (last (area # as)) = None \<and> length as < n \<longrightarrow>
        find_top_area n w area e = find_top_area (Suc (length as)) w area e
        \<and> fst (find_top_area n w area e) = fst (find_top_area (Suc 0) w (last (area # as)) e))
   \<and> (chain w (area # as) \<and> length as = n \<longrightarrow>
        fst (find_top_area n w area e) = Inl RecursionError)"
  using walk_bound [of n w area e] walk_reaches_end [of w area as n e]
        walk_exhausts [of w area as n e]
  by blast


lemma st_pauli_chain:
  "chain musicbrainz [st_pauli, hamburg] \<and> next_area musicbrainz hamburg = None"
proof -
  have 1: "next_area musicbrainz st_pauli = Some hamburg"
    by (simp add: next_area_def parents_def backward_from_def has_country_iso_code_def
          st_pauli_def hamburg_def musicbrainz_def area_rels_def part_of_def)
  have 2: "next_area musicbrainz hamburg = None"
    by (simp add: next_area_def parents_def backward_from_def has_country_iso_code_def
          hamburg_def germany_def musicbrainz_def area_rels_def part_of_def)
  have "chain musicbrainz [hamburg]" by (simp add: chain_def)
  with 1 2 show ?thesis by (simp add: chain_Cons)
qed

theorem walk_terminates_witness:
  "chain musicbrainz [st_pauli, hamburg] \<and> next_area musicbrainz hamburg = None
   \<and> find_top_area 5 musicbrainz st_pauli fresh_env = find_top_area 2 musicbrainz st_pauli fresh_env
   \<and> fst (find_top_area 5 musicbrainz st_pauli fresh_env) = Inr (PList [PStr ''DE''])
   \<and> length (calls (snd (find_top_area 5 musicbrainz st_pauli fresh_env))) \<le> 5
   \<and> fst (find_top_area 1 musicbrainz st_pauli fresh_env) = Inl RecursionError"
proof -
  have t: "fst (find_top_area (Suc 0) musicbrainz hamburg fresh_env) = Inr (PList [PStr ''DE''])"
    by code_simp
  have c: "chain musicbrainz (st_pauli # [hamburg])"
    and l: "next_area musicbrainz (last (st_pauli # [hamburg])) = None"
    using st_pauli_chain by simp_all
  have a: "length (calls (snd (find_top_area 5 musicbrainz st_pauli fresh_env))) \<le> 5"
    using walk_terminates [of 5 musicbrainz st_pauli fresh_env "[hamburg]"]
    by (simp add: fresh_env_def del: find_top_area.simps)
  have pre: "chain musicbrainz (st_pauli # [hamburg])
      \<and> next_area musicbrainz (last (st_pauli # [hamburg])) = None \<and> length [hamburg] < 5"
    using c l by simp
  have "chain musicbrainz (st_pauli # [hamburg])
      \<and> next_area musicbrainz (last (st_pauli # [hamburg])) = None \<and> length [hamburg] < 5
      \<longrightarrow> find_top_area 5 musicbrainz st_pauli fresh_env
          = find_top_area (Suc (length [hamburg])) musicbrainz st_pauli fresh_env
        \<and> fst (find_top_area 5 musicbrainz st_pauli fresh_env)
          = fst (find_top_area (Suc 0) musicbrainz (last (st_pauli # [hamburg])) fresh_env)"
    using walk_terminates [of 5 musicbrainz st_pauli fresh_env "[hamburg]"] by blast
  from this pre
  have "find_top_area 5 musicbrainz st_pauli fresh_env
          = find_top_area (Suc (length [hamburg])) musicbrainz st_pauli fresh_env
        \<and> fst (find_top_area 5 musicbrainz st_pauli fresh_env)
          = fst (find_top_area (Suc 0) musicbrainz (last (st_pauli # [hamburg])) fresh_env)"
    by (rule mp)
  then have b0: "find_top_area 5 musicbrainz st_pauli fresh_env
          = find_top_area (Suc (length [hamburg])) musicbrainz st_pauli fresh_env"
    and v0: "fst (find_top_area 5 musicbrainz st_pauli fresh_env)
          = fst (find_top_area (Suc 0) musicbrainz (last (st_pauli # [hamburg])) fresh_env)"
    by blast+
  have e2: "Suc (length [hamburg]) = 2" by simp
  have lh: "last (st_pauli # [hamburg]) = hamburg" by simp
  from b0 have b: "find_top_area 5 musicbrainz st_pauli fresh_env
                    = find_top_area 2 musicbrainz st_pauli fresh_env"
    unfolding e2 .
  from v0 t have v: "fst (find_top_area 5 musicbrainz st_pauli fresh_env) = Inr (PList [PStr ''DE''])"
    unfolding lh by (rule trans)
  have x: "fst (find_top_area 1 musicbrainz st_pauli fresh_env) = Inl RecursionError"
    using walk_terminates [of 1 musicbrainz st_pauli fresh_env "[hamburg]"] c
    by (simp del: find_top_area.simps)
  from st_pauli_chain a b v x show ?thesis by blast
qed

lemma walk_finds_country:
  assumes "reaches_country w a t"
  shows "\<exists>k. \<forall>n>k. \<forall>e. \<exists>e'. find_top_area n w a e = (getitem t ''iso-3166-1-code-list'', e')"
  using assms
proof (induction rule: reaches_country.induct)
  case (here w a)
  have "\<exists>e'. find_top_area n w a e = (getitem a ''iso-3166-1-code-list'', e')" if "n > 0" for n e
  proof -
    from that obtain m where n: "n = Suc m" by (cases n) auto
    obtain r e1 where na: "new_area w a e = (r, e1)" by (cases "new_area w a e") auto
    with new_area_parents [of w a e] here have "r = Inr []" by simp
    with na n show ?thesis by simp
  qed
  then show ?case by blast
next
  case (top w a b bs)
  have "\<exists>e'. find_top_area n w a e = (getitem b ''iso-3166-1-code-list'', e')" if "n > 0" for n e
  proof -
    from that obtain m where n: "n = Suc m" by (cases n) auto
    obtain r e1 where na: "new_area w a e = (r, e1)" by (cases "new_area w a e") auto
    with new_area_parents [of w a e] top have "r = Inr (b # bs)" by simp
    with na n top show ?thesis by simp
  qed
  then show ?case by blast
next
  case (up w a b bs t)
  then obtain k where k: "\<forall>n>k. \<forall>e. \<exists>e'. find_top_area n w b e = (getitem t ''iso-3166-1-code-list'', e')"
    by blast
  have "\<exists>e'. find_top_area n w a e = (getitem t ''iso-3166-1-code-list'', e')" if "n > Suc k" for n e
  proof -
    from that obtain m where n: "n = Suc m" and m: "m > k" by (cases n) auto
    obtain r e1 where na: "new_area w a e = (r, e1)" by (cases "new_area w a e") auto
    with new_area_parents [of w a e] up have "r = Inr (b # bs)" by simp
    with na n up k m show ?thesis by simp
  qed
  then show ?case by blast
qed

text \<open>
  C3, amended. For an identifier of valid shape that is not a key of the loaded
  cache, whose artist record has no country but an area from which the hierarchy
  reaches a country with a code list whose first code is the string \<open>c\<close>:
  once the walk is allowed enough nested calls, \<^verbatim>\<open>get_artist_country\<close> returns
  \<open>c\<close> in lower case.
\<close>

theorem area_country_lowercased:
  assumes "i \<noteq> [] \<and> length i = 36 \<and> count_list i (CHR ''-'') = 4"
    and "load_cache self e = (Inr (PDict kvs), selfL, eL)"
    and "map_of kvs i = None"
    and "get_artist_by_id w i = Inr ai"
    and "getitem ai ''artist'' = Inr (PDict a)"
    and "get_default (PDict a) ''country'' (PStr []) = Inr cv" and "\<not> truthy cv"
    and "map_of a ''area'' = Some area"
    and "reaches_country w area t"
    and "getitem t ''iso-3166-1-code-list'' = Inr (PList (PStr c # cs))"
  shows "\<exists>k. \<forall>n>k. \<exists>self' e'.
           get_artist_country n w self i e = (Inr (PStr (map lower_char c)), self', e')"
proof -
  from walk_finds_country [OF assms(9)] assms(10)
  obtain k where k: "\<forall>n>k. \<forall>e. \<exists>e'. find_top_area n w area e = (Inr (PList (PStr c # cs)), e')"
    by auto
  have "\<exists>self' e'. get_artist_country n w self i e = (Inr (PStr (map lower_char c)), self', e')"
    if "n > k" for n
  proof -
    from k that obtain e2 where
      "find_top_area n w area (eL\<lparr>calls := calls eL @ [GetArtist i]\<rparr>) = (Inr (PList (PStr c # cs)), e2)"
      by blast
    with assms have f: "fetch_country n w i eL = (Inr (PDict a, PStr c), e2)"
      by (auto simp: fetch_country_def country_from_area_def Let_def split: option.splits)
    show ?thesis using assms(1,2,3) f
      by (auto simp: get_artist_country_def cache_result_def Let_def split: option.splits)
  qed
  then show ?thesis by blast
qed

lemma st_pauli_germany: "reaches_country musicbrainz st_pauli germany"
proof -
  have 1: "parents musicbrainz st_pauli = Inr [hamburg]"
    by (simp add: parents_def backward_from_def st_pauli_def musicbrainz_def area_rels_def part_of_def)
  have 2: "parents musicbrainz hamburg = Inr [germany]"
    by (simp add: parents_def backward_from_def hamburg_def musicbrainz_def area_rels_def part_of_def)
  have 3: "has_country_iso_code hamburg = Inr False"
    by (simp add: has_country_iso_code_def hamburg_def)
  have 4: "has_country_iso_code germany = Inr True"
    by (simp add: has_country_iso_code_def germany_def)
  from reaches_country.top [OF 2 4] have "reaches_country musicbrainz hamburg germany" .
  from reaches_country.up [OF 1 3 this] show ?thesis .
qed

lemma run_walk:
  "get_artist_country 2 musicbrainz CountryPlugin walk_id fresh_env
     = (Inr (PStr ''de''),
         \<lparr>cache = PDict [(walk_id, PDict [(''country'', PStr ''de''),
              (''cached'', PStr ''2024-01-01T00:00:00''), (''name'', PStr ''Die Sterne'')])]\<rparr>,
         \<lparr>cache_file = Json (PDict [(walk_id, PDict [(''country'', PStr ''de''),
              (''cached'', PStr ''2024-01-01T00:00:00''), (''name'', PStr ''Die Sterne'')])]),
          writable = True,
          calls = [GetArtist walk_id, GetArea (PStr ''st-pauli''), GetArea (PStr ''hamburg'')],
          logged = []\<rparr>)"
  by code_simp

text \<open>
  C3, as stated, fails: the code found by the walk is returned in lower case, not
  as the area carries it. The district of Hamburg leads to Germany, whose code is
  \<open>DE\<close>; the resolver returns \<open>de\<close>.
\<close>

theorem area_country_counterexample:
  "get_artist_by_id musicbrainz walk_id
     = Inr (PDict [(''artist'', PDict [(''id'', PStr walk_id), (''name'', PStr ''Die Sterne''),
                                       (''area'', st_pauli)])])
   \<and> reaches_country musicbrainz st_pauli germany
   \<and> getitem germany ''iso-3166-1-code-list'' = Inr (PList [PStr ''DE''])
   \<and> fst (get_artist_country 2 musicbrainz CountryPlugin walk_id fresh_env) = Inr (PStr ''de'')
   \<and> PStr ''de'' \<noteq> PStr ''DE''"
  using st_pauli_germany run_walk
  by (simp add: germany_def musicbrainz_def walk_id_def sample_id_def)

theorem area_country_lowercased_witness:
  "\<exists>k. \<forall>n>k. \<exists>self' e'.
      get_artist_country n musicbrainz CountryPlugin walk_id fresh_env
        = (Inr (PStr ''de''), self', e')"
proof -
  have s: "walk_id \<noteq> [] \<and> length walk_id = 36 \<and> count_list walk_id (CHR ''-'') = 4"
    by (simp add: walk_id_def)
  have l: "load_cache CountryPlugin fresh_env = (Inr (PDict []), \<lparr>cache = PDict []\<rparr>, fresh_env)"
    by (simp add: load_cache_def CountryPlugin_def fresh_env_def)
  have f: "get_artist_by_id musicbrainz walk_id
     = Inr (PDict [(''artist'', PDict [(''id'', PStr walk_id), (''name'', PStr ''Die Sterne''),
                                       (''area'', st_pauli)])])"
    by (simp add: musicbrainz_def walk_id_def sample_id_def)
  have g: "getitem germany ''iso-3166-1-code-list'' = Inr (PList [PStr ''DE''])"
    by (simp add: germany_def)
  have d: "lower_char CHR ''D'' = CHR ''d''" "lower_char CHR ''E'' = CHR ''e''"
    by (simp_all add: lower_char_def uppercase_def lowercase_def)
  from area_country_lowercased [where w = musicbrainz and cv = "PStr []" and area = st_pauli,
         OF s l _ f _ _ _ _ st_pauli_germany g]
  show ?thesis by (simp add: d)
qed

section \<open>The subcommand\<close>

lemma sound_cache_update:
  "sound_cache (PDict kvs) \<Longrightarrow> sound_cache (PDict (AList.update i (PDict r) kvs))"
  by (induction kvs) (auto simp: sound_cache_def)

lemma sound_cache_lookup:
  "sound_cache (PDict kvs) \<Longrightarrow> map_of kvs i = Some v \<Longrightarrow> \<exists>r. v = PDict r"
  by (induction kvs) (auto simp: sound_cache_def split: pyval.splits if_splits)

lemma sound_cache_loaded:
  "sound_cache (cache self) \<Longrightarrow> fst (load_cache self e) = Inr (cache self)"
  by (auto simp: load_cache_def sound_cache_def)

lemma load_cache_log: "fst (load_cache self (log_msg l m e)) = fst (load_cache self e)"
  by (simp add: load_cache_def log_msg_def split: file_content.splits)

lemma cache_failure_sound:
  assumes "sound_cache c" and "cache_failure w i c x self e = (r, self', e')"
  shows "(\<exists>v. r = Inr v) \<and> sound_cache (cache self')"
proof -
  from assms(1) obtain kvs where c: "c = PDict kvs" by (cases c) (auto simp: sound_cache_def)
  with assms sound_cache_update [of kvs i] show ?thesis
    by (auto simp: cache_failure_def Let_def)
qed

lemma cache_result_sound:
  assumes "sound_cache c" and "cache_result w i c a country self e = (r, self', e')"
  shows "(\<exists>x. r = Inl x \<and> self' = self \<and> e' = e) \<or> ((\<exists>v. r = Inr v) \<and> sound_cache (cache self'))"
proof -
  from assms(1) obtain kvs where c: "c = PDict kvs" by (cases c) (auto simp: sound_cache_def)
  show ?thesis
  proof (cases "if truthy country then lower country else Inr (PStr [])")
    case (Inl x)
    with assms(2) have "Inl x = r \<and> self = self' \<and> e = e'" by (simp add: cache_result_def)
    then show ?thesis by blast
  next
    case low: (Inr low)
    show ?thesis
    proof (cases "get_default a ''name'' (PStr [])")
      case (Inl x)
      with low assms(2) have "Inl x = r \<and> self = self' \<and> e = e'" by (simp add: cache_result_def)
      then show ?thesis by blast
    next
      case (Inr name)
      with low assms(2) c
      have "r = Inr low \<and> cache self' = PDict (AList.update i
              (PDict [(''country'', low), (''cached'', PStr (now w)), (''name'', name)]) kvs)"
        by (auto simp: cache_result_def Let_def)
      with assms(1) c sound_cache_update [of kvs i] show ?thesis by simp
    qed
  qed
qed

text \<open>
  With a loaded cache that is a mapping to records, \<^verbatim>\<open>get_artist_country\<close> raises
  nothing, and the cache stays such a mapping.
\<close>

lemma get_artist_country_sound:
  assumes "fst (load_cache self e) = Inr c0" and "sound_cache c0"
    and "get_artist_country n w self i e = (r, self', e')"
  shows "(\<exists>v. r = Inr v) \<and> (\<exists>c1. fst (load_cache self' e') = Inr c1 \<and> sound_cache c1)"
proof (cases "i = [] \<or> length i \<noteq> 36 \<or> count_list i (CHR ''-'') \<noteq> 4")
  case True
  with assms show ?thesis by (auto simp: get_artist_country_def)
next
  case False
  obtain lc self1 e1 where l0: "load_cache self e = (lc, self1, e1)"
    by (cases "load_cache self e") auto
  with assms(1) have l: "load_cache self e = (Inr c0, self1, e1)" by simp
  note sc = assms(2)
  then obtain kvs where c: "c0 = PDict kvs" by (cases c0) (auto simp: sound_cache_def)
  from l have c1: "cache self1 = c0" by (rule load_cache_fst)
  show ?thesis
  proof (cases "map_of kvs i")
    case (Some v)
    with sc c obtain rr where "v = PDict rr" using sound_cache_lookup by blast
    with Some assms(3) False l c c1 sc sound_cache_loaded [of self1 e1] show ?thesis
      by (auto simp: get_artist_country_def split: option.splits)
  next
    case None
    obtain q e2 where fr: "fetch_country n w i e1 = (q, e2)"
      by (cases "fetch_country n w i e1") auto
    show ?thesis
    proof (cases q)
      case (Inl x)
      with fr None assms(3) False l c
      have "cache_failure w i c0 x self1 e2 = (r, self', e')"
        by (simp add: get_artist_country_def)
      from cache_failure_sound [OF sc this] sound_cache_loaded [of self' e'] show ?thesis by simp
    next
      case (Inr ac)
      obtain a country where ac: "ac = (a, country)" by (cases ac) auto
      obtain r2 self2 e3 where cr: "cache_result w i c0 a country self1 e2 = (r2, self2, e3)"
        by (cases "cache_result w i c0 a country self1 e2") auto
      show ?thesis
      proof (cases r2)
        case x: (Inl x)
        with cr Inr ac fr None assms(3) False l c
        have "cache_failure w i c0 x self2 e3 = (r, self', e')"
          by (simp add: get_artist_country_def)
        from cache_failure_sound [OF sc this] sound_cache_loaded [of self' e'] show ?thesis by simp
      next
        case v: (Inr v)
        with cr Inr ac fr None assms(3) False l c
        have "r = r2" "self' = self2" "e' = e3"
          by (simp_all add: get_artist_country_def)
        with cache_result_sound [OF sc cr] v sound_cache_loaded [of self' e'] show ?thesis by auto
      qed
    qed
  qed
qed

lemma store_changes: "store (set_artist_country c a) \<noteq> a"
proof
  assume "store (set_artist_country c a) = a"
  then have "store_calls (store (set_artist_country c a)) = store_calls a" by simp
  then show False by (simp add: store_def set_artist_country_def)
qed

lemma update_items_completes:
  "fst (load_cache self e) = Inr c \<Longrightarrow> sound_cache c
    \<Longrightarrow> fst (update_items n w its u self e) = None"
proof (induction its arbitrary: u self e c)
  case Nil
  show ?case by simp
next
  case (Cons it its)
  show ?case
  proof (cases "has_country it")
    case True
    with Cons.IH [OF Cons.prems, of u] show ?thesis by (auto split: prod.splits)
  next
    case False
    obtain r self1 e1 where g: "get_artist_country n w self (mb_artistid it) e = (r, self1, e1)"
      by (cases "get_artist_country n w self (mb_artistid it) e") auto
    from get_artist_country_sound [OF Cons.prems g]
    obtain v c1 where r: "r = Inr v" and l1: "fst (load_cache self1 e1) = Inr c1"
      and s1: "sound_cache c1" by auto
    show ?thesis
    proof (cases "truthy v")
      case True
      define it' where "it' = store (set_artist_country v it)"
      define e2 where "e2 = log_msg DEBUG (SetCountry v (artist it') (title it')) e1"
      from l1 have "fst (load_cache self1 e2) = Inr c1" by (simp add: e2_def load_cache_log)
      from Cons.IH [OF this s1, of "u + 1"] False g r True show ?thesis
        by (auto simp: Let_def it'_def e2_def split: prod.splits)
    next
      case nt: False
      from Cons.IH [OF l1 s1, of u] False g r nt show ?thesis by (auto split: prod.splits)
    qed
  qed
qed

text \<open>
  The loop, item by item: \<open>ps\<close> is the sequence of states (plugin and
  environment) the loop passes through, one before each item and one after the
  last.
\<close>

lemma update_items_trace:
  assumes "update_items n w its u self e = (None, its', u', self', e')"
  shows "length its' = length its
     \<and> (\<exists>ps. length ps = Suc (length its) \<and> ps ! 0 = (self, e)
          \<and> (\<forall>j<length its.
               if has_country (its ! j) then its' ! j = its ! j \<and> ps ! Suc j = ps ! j
               else (\<exists>c p q.
                 get_artist_country n w (fst (ps ! j)) (mb_artistid (its ! j)) (snd (ps ! j))
                   = (Inr c, p, q)
                 \<and> (if truthy c
                    then its' ! j = store (set_artist_country c (its ! j))
                       \<and> ps ! Suc j
                           = (p, log_msg DEBUG (SetCountry c (artist (its ! j)) (title (its ! j))) q)
                    else its' ! j = its ! j \<and> ps ! Suc j = (p, q))))
          \<and> last ps = (self', e'))
     \<and> u' = u + length (filter (\<lambda>(a, b). b \<noteq> a) (zip its its'))"
  using assms
proof (induction its arbitrary: u self e its')
  case Nil
  then have "its' = []" "u' = u" "self' = self" "e' = e" by simp_all
  then show ?case by (simp add: exI [of _ "[(self, e)]"])
next
  case (Cons it its)
  let ?step = "\<lambda>a b (s::plugin \<times> env) s'.
     if has_country a then b = a \<and> s' = s
     else (\<exists>c p q. get_artist_country n w (fst s) (mb_artistid a) (snd s) = (Inr c, p, q)
            \<and> (if truthy c
               then b = store (set_artist_country c a)
                  \<and> s' = (p, log_msg DEBUG (SetCountry c (artist a) (title a)) q)
               else b = a \<and> s' = (p, q)))"
  have "\<exists>it' s1 its2 v. ?step it it' (self, e) s1
          \<and> update_items n w its v (fst s1) (snd s1) = (None, its2, u', self', e')
          \<and> its' = it' # its2 \<and> v = (if it' \<noteq> it then u + 1 else u)"
  proof (cases "has_country it")
    case True
    with Cons.prems show ?thesis by (auto split: prod.splits)
  next
    case False
    obtain r self1 e1 where g: "get_artist_country n w self (mb_artistid it) e = (r, self1, e1)"
      by (cases "get_artist_country n w self (mb_artistid it) e") auto
    with Cons.prems False obtain c where r: "r = Inr c" by (cases r) auto
    show ?thesis
    proof (cases "truthy c")
      case True
      with Cons.prems False g r store_changes [of c it] show ?thesis
        by (auto simp: Let_def store_def set_artist_country_def split: prod.splits)
    next
      case nt: False
      with Cons.prems False g r show ?thesis by (auto split: prod.splits)
    qed
  qed
  then obtain it' s1 its2 v where hd: "?step it it' (self, e) s1"
    and rest: "update_items n w its v (fst s1) (snd s1) = (None, its2, u', self', e')"
    and its': "its' = it' # its2" and v: "v = (if it' \<noteq> it then u + 1 else u)"
    by blast
  from Cons.IH [OF rest] obtain ps where len: "length its2 = length its"
    and ps: "length ps = Suc (length its)" "ps ! 0 = (fst s1, snd s1)"
      "\<forall>j<length its. ?step (its ! j) (its2 ! j) (ps ! j) (ps ! Suc j)"
      "last ps = (self', e')"
    and u': "u' = v + length (filter (\<lambda>(a, b). b \<noteq> a) (zip its its2))"
    by blast
  let ?ps = "(self, e) # ps"
  have 1: "length ?ps = Suc (length (it # its))" using ps(1) by simp
  have 2: "?ps ! 0 = (self, e)" by simp
  have 3: "?step ((it # its) ! j) ((it' # its2) ! j) (?ps ! j) (?ps ! Suc j)"
    if "j < length (it # its)" for j
  proof (cases j)
    case 0
    from hd show ?thesis
      by (simp only: 0 nth_Cons_0 nth_Cons_Suc ps(2) prod.collapse)
  next
    case (Suc k)
    with that have "k < length its" by simp
    with ps(3) have "?step (its ! k) (its2 ! k) (ps ! k) (ps ! Suc k)" by blast
    then show ?thesis
      by (simp only: Suc nth_Cons_Suc)
  qed
  have 4: "last ?ps = (self', e')" using ps(1,4) by (cases ps) auto
  have 5: "u' = u + length (filter (\<lambda>(a, b). b \<noteq> a) (zip (it # its) (it' # its2)))"
    using u' v by simp
  have 6: "length (it' # its2) = length (it # its)" using len by simp
  from 1 2 3 4 have "\<exists>qs. length qs = Suc (length (it # its)) \<and> qs ! 0 = (self, e)
      \<and> (\<forall>j<length (it # its). ?step ((it # its) ! j) ((it' # its2) ! j) (qs ! j) (qs ! Suc j))
      \<and> last qs = (self', e')"
    by (intro exI [of _ ?ps]) blast
  with 5 6 show ?case unfolding its' by blast
qed

text \<open>
  C6, amended. The subcommand logs the number of items and then handles them in
  order; \<open>ps\<close> is the sequence of states (plugin and environment) it passes
  through, starting from the state after that first message. An item whose
  \<^verbatim>\<open>artist_country\<close> attribute is non-empty is left unchanged, and so is the
  state. For any other item the country is resolved by \<^verbatim>\<open>get_artist_country\<close>
  in the state the loop has reached; when the result is non-empty it is assigned
  and stored and a debug message is logged, and when it is empty the item stays as
  it was. The count logged at the end is the number of items changed. The command
  raises nothing when the loaded cache is a mapping to records.
\<close>

theorem artistcountry_command:
  "((\<exists>c. fst (load_cache self e) = Inr c \<and> sound_cache c) \<longrightarrow>
      fst (artistcountry_func n w items self e) = None)
   \<and> (artistcountry_func n w items self e = (None, items', self', e') \<longrightarrow>
      length items' = length items
      \<and> (\<exists>ps. length ps = Suc (length items)
           \<and> ps ! 0 = (self, log_msg INFO (Processing (length items)) e)
           \<and> (\<forall>j<length items.
                if has_country (items ! j) then items' ! j = items ! j \<and> ps ! Suc j = ps ! j
                else (\<exists>c p q.
                  get_artist_country n w (fst (ps ! j)) (mb_artistid (items ! j)) (snd (ps ! j))
                    = (Inr c, p, q)
                  \<and> (if truthy c
                     then items' ! j = store (set_artist_country c (items ! j))
                        \<and> ps ! Suc j
                            = (p, log_msg DEBUG
                                    (SetCountry c (artist (items ! j)) (title (items ! j))) q)
                     else items' ! j = items ! j \<and> ps ! Suc j = (p, q))))
           \<and> self' = fst (last ps)
           \<and> e' = log_msg INFO
                    (Updated (length (filter (\<lambda>(a, b). b \<noteq> a) (zip items items'))))
                    (snd (last ps))))"
proof (intro conjI impI)
  assume "\<exists>c. fst (load_cache self e) = Inr c \<and> sound_cache c"
  then obtain c where "fst (load_cache self (log_msg INFO (Processing (length items)) e)) = Inr c"
    and "sound_cache c"
    by (auto simp: load_cache_log)
  from update_items_completes [OF this, of n w items 0]
  show "fst (artistcountry_func n w items self e) = None"
    by (auto simp: artistcountry_func_def split: prod.splits option.splits)
next
  assume r: "artistcountry_func n w items self e = (None, items', self', e')"
  then obtain u' e1 where
    u: "update_items n w items 0 self (log_msg INFO (Processing (length items)) e)
          = (None, items', u', self', e1)"
    and e': "e' = log_msg INFO (Updated u') e1"
    by (auto simp: artistcountry_func_def split: prod.splits option.splits)
  from update_items_trace [OF u] obtain ps where len: "length items' = length items"
    and ps: "length ps = Suc (length items)"
      "ps ! 0 = (self, log_msg INFO (Processing (length items)) e)"
      "\<forall>j<length items.
         if has_country (items ! j) then items' ! j = items ! j \<and> ps ! Suc j = ps ! j
         else (\<exists>c p q.
           get_artist_country n w (fst (ps ! j)) (mb_artistid (items ! j)) (snd (ps ! j))
             = (Inr c, p, q)
           \<and> (if truthy c
              then items' ! j = store (set_artist_country c (items ! j))
                 \<and> ps ! Suc j
                     = (p, log_msg DEBUG
                             (SetCountry c (artist (items ! j)) (title (items ! j))) q)
              else items' ! j = items ! j \<and> ps ! Suc j = (p, q)))"
      "last ps = (self', e1)"
    and u': "u' = 0 + length (filter (\<lambda>(a, b). b \<noteq> a) (zip items items'))"
    by blast
  from len show "length items' = length items" .
  from ps(4) e' u' have "self' = fst (last ps)"
    and "e' = log_msg INFO
                (Updated (length (filter (\<lambda>(a, b). b \<noteq> a) (zip items items'))))
                (snd (last ps))"
    by simp_all
  with ps(1,2,3)
  show "\<exists>ps. length ps = Suc (length items)
           \<and> ps ! 0 = (self, log_msg INFO (Processing (length items)) e)
           \<and> (\<forall>j<length items.
                if has_country (items ! j) then items' ! j = items ! j \<and> ps ! Suc j = ps ! j
                else (\<exists>c p q.
                  get_artist_country n w (fst (ps ! j)) (mb_artistid (items ! j)) (snd (ps ! j))
                    = (Inr c, p, q)
                  \<and> (if truthy c
                     then items' ! j = store (set_artist_country c (items ! j))
                        \<and> ps ! Suc j
                            = (p, log_msg DEBUG
                                    (SetCountry c (artist (items ! j)) (title (items ! j))) q)
                     else items' ! j = items ! j \<and> ps ! Suc j = (p, q))))
           \<and> self' = fst (last ps)
           \<and> e' = log_msg INFO
                    (Updated (length (filter (\<lambda>(a, b). b \<noteq> a) (zip items items'))))
                    (snd (last ps))"
    by blast
qed

lemma run_command:
  "artistcountry_func 1 offline [tagged_item, untagged_item, walk_item, plain_item] warm_plugin fresh_env
     = (None,
         [tagged_item, store (set_artist_country (PStr ''de'') untagged_item), walk_item, plain_item],
         \<lparr>cache = PDict (AList.update walk_id
              (PDict [(''country'', PStr []), (''cached'', PStr ''2024-01-01T00:00:00''),
                      (''error'', PStr ''offline'')]) [(sample_id, PDict [(''country'', PStr ''de''),
              (''cached'', PStr ''2023-05-17T10:21:04''), (''name'', PStr ''Kraftwerk'')])])\<rparr>,
         \<lparr>cache_file = Json (PDict (AList.update walk_id
              (PDict [(''country'', PStr []), (''cached'', PStr ''2024-01-01T00:00:00''),
                      (''error'', PStr ''offline'')]) [(sample_id, PDict [(''country'', PStr ''de''),
              (''cached'', PStr ''2023-05-17T10:21:04''), (''name'', PStr ''Kraftwerk'')])])),
          writable = True, calls = [GetArtist walk_id],
          logged = [(INFO, Processing 4),
                    (DEBUG, SetCountry (PStr ''de'') ''Kraftwerk'' ''Autobahn''),
                    (DEBUG, ErrorFetching walk_id ''offline''),
                    (INFO, Updated 1)]\<rparr>)"
  by code_simp

theorem artistcountry_command_witness:
  "fst (load_cache warm_plugin fresh_env) = Inr (cache warm_plugin)
   \<and> sound_cache (cache warm_plugin)
   \<and> fst (artistcountry_func 1 offline [tagged_item, untagged_item, walk_item, plain_item]
            warm_plugin fresh_env) = None
   \<and> fst (snd (artistcountry_func 1 offline [tagged_item, untagged_item, walk_item, plain_item]
            warm_plugin fresh_env))
       = [tagged_item, store (set_artist_country (PStr ''de'') untagged_item), walk_item, plain_item]
   \<and> last (logged (snd (snd (snd (artistcountry_func 1 offline
            [tagged_item, untagged_item, walk_item, plain_item] warm_plugin fresh_env)))))
       = (INFO, Updated 1)"
proof -
  have l: "fst (load_cache warm_plugin fresh_env) = Inr (cache warm_plugin)"
    by (simp add: load_cache_def warm_plugin_def)
  have s: "sound_cache (cache warm_plugin)"
    by (simp add: sound_cache_def warm_plugin_def)
  from l s have "\<exists>c. fst (load_cache warm_plugin fresh_env) = Inr c \<and> sound_cache c" by blast
  with artistcountry_command [of warm_plugin fresh_env 1 offline
         "[tagged_item, untagged_item, walk_item, plain_item]"]
  have "fst (artistcountry_func 1 offline [tagged_item, untagged_item, walk_item, plain_item]
            warm_plugin fresh_env) = None"
    by blast
  with l s run_command show ?thesis by simp
qed

text \<open>
  C6, as stated, fails in two ways. A track without an artist identifier carries
  no attribute, yet nothing is resolved or persisted for it. And a track whose
  stored attribute is the empty string carries an attribute, yet it is resolved
  anew and stored.
\<close>

theorem artistcountry_command_counterexample:
  "\<not> has_country plain_item
   \<and> artistcountry_func 0 offline [plain_item] CountryPlugin fresh_env
       = (None, [plain_item], CountryPlugin,
          fresh_env\<lparr>logged := [(INFO, Processing 1), (INFO, Updated 0)]\<rparr>)
   \<and> map_of (values_flex plain_item) ''artist_country'' = None
   \<and> store_calls plain_item = 0
   \<and> map_of (stored_flex blank_item) ''artist_country'' = Some (PStr [])
   \<and> artistcountry_func 0 offline [blank_item] warm_plugin fresh_env
       = (None, [store (set_artist_country (PStr ''de'') blank_item)], warm_plugin,
          fresh_env\<lparr>logged := [(INFO, Processing 1),
             (DEBUG, SetCountry (PStr ''de'') ''Kraftwerk'' ''Autobahn''), (INFO, Updated 1)]\<rparr>)
   \<and> store (set_artist_country (PStr ''de'') blank_item) \<noteq> blank_item"
proof -
  have a: "artistcountry_func 0 offline [plain_item] CountryPlugin fresh_env
       = (None, [plain_item], CountryPlugin,
          fresh_env\<lparr>logged := [(INFO, Processing 1), (INFO, Updated 0)]\<rparr>)"
    by code_simp
  have b: "artistcountry_func 0 offline [blank_item] warm_plugin fresh_env
       = (None, [store (set_artist_country (PStr ''de'') blank_item)], warm_plugin,
          fresh_env\<lparr>logged := [(INFO, Processing 1),
             (DEBUG, SetCountry (PStr ''de'') ''Kraftwerk'' ''Autobahn''), (INFO, Updated 1)]\<rparr>)"
    by code_simp
  from a b store_changes [of "PStr ''de''" blank_item] show ?thesis
    by (simp add: has_country_def plain_item_def blank_item_def)
qed

section \<open>Repeated lookups\<close>

lemma load_cache_again: "cache self \<noteq> PNone \<Longrightarrow> load_cache self e = (Inr (cache self), self, e)"
  by (simp add: load_cache_def)

lemma cache_failure_hit:
  assumes "cache_failure w i c x self e = (Inr v, self', e')"
  shows "\<exists>kvs rec. cache self' = PDict kvs \<and> map_of kvs i = Some (PDict rec)
           \<and> get_default (PDict rec) ''country'' (PStr []) = Inr v"
  using assms
  by (cases c) (auto simp: cache_failure_def Let_def update_Some_unfold)

lemma cache_result_hit:
  assumes "cache_result w i c a country self e = (Inr v, self', e')"
  shows "\<exists>kvs rec. cache self' = PDict kvs \<and> map_of kvs i = Some (PDict rec)
           \<and> get_default (PDict rec) ''country'' (PStr []) = Inr v"
  using assms
  by (cases c)
     (auto simp: cache_result_def Let_def update_Some_unfold split: sum.splits if_splits)

lemma hit_returns:
  assumes "i \<noteq> [] \<and> length i = 36 \<and> count_list i (CHR ''-'') = 4"
    and "cache self = PDict kvs" and "map_of kvs i = Some (PDict rec)"
    and "get_default (PDict rec) ''country'' (PStr []) = Inr v"
  shows "get_artist_country n w self i e = (Inr v, self, e)"
  using assms by (simp add: get_artist_country_def load_cache_def)

text \<open>
  Once a lookup has returned, the same lookup again, whatever the service would
  now answer, returns the same value and changes nothing: it makes no remote
  call.
\<close>

lemma second_lookup_unchanged:
  assumes "get_artist_country n w self i e = (Inr v, self', e')"
  shows "get_artist_country m w' self' i e' = (Inr v, self', e')"
proof (cases "i = [] \<or> length i \<noteq> 36 \<or> count_list i (CHR ''-'') \<noteq> 4")
  case True
  with assms show ?thesis by (simp add: get_artist_country_def)
next
  case False
  then have shape: "i \<noteq> [] \<and> length i = 36 \<and> count_list i (CHR ''-'') = 4" by simp
  obtain lc self1 e1 where l: "load_cache self e = (lc, self1, e1)"
    by (cases "load_cache self e") auto
  with assms False obtain c where lc: "lc = Inr c"
    by (cases lc) (auto simp: get_artist_country_def)
  with l have c1: "cache self1 = c" by (simp add: load_cache_fst)
  have "\<exists>kvs rec. cache self' = PDict kvs \<and> map_of kvs i = Some (PDict rec)
           \<and> get_default (PDict rec) ''country'' (PStr []) = Inr v"
  proof (cases "contains i c")
    case (Inl x)
    with assms False l lc show ?thesis by (simp add: get_artist_country_def)
  next
    case (Inr b)
    show ?thesis
    proof (cases b)
      case True
      with Inr assms False l lc
      have g: "(case getitem c i of Inl x \<Rightarrow> Inl x
                | Inr r \<Rightarrow> get_default r ''country'' (PStr [])) = Inr v"
        and s': "self' = self1"
        by (simp_all add: get_artist_country_def)
      from g obtain r where r: "getitem c i = Inr r" "get_default r ''country'' (PStr []) = Inr v"
        by (cases "getitem c i") auto
      from r(1) obtain kvs where kvs: "c = PDict kvs" "map_of kvs i = Some r"
        by (cases c) (auto split: option.splits)
      from r(2) obtain rec where "r = PDict rec" by (cases r) auto
      with kvs r(2) c1 s' show ?thesis by auto
    next
      case nb: False
      obtain q e2 where fr: "fetch_country n w i e1 = (q, e2)"
        by (cases "fetch_country n w i e1") auto
      show ?thesis
      proof (cases q)
        case (Inl x)
        with fr nb Inr assms False l lc
        have "cache_failure w i c x self1 e2 = (Inr v, self', e')"
          by (simp add: get_artist_country_def)
        then show ?thesis by (rule cache_failure_hit)
      next
        case q: (Inr ac)
        obtain a country where ac: "ac = (a, country)" by (cases ac) auto
        obtain r2 self2 e3 where cr: "cache_result w i c a country self1 e2 = (r2, self2, e3)"
          by (cases "cache_result w i c a country self1 e2") auto
        show ?thesis
        proof (cases r2)
          case (Inl x)
          with cr q ac fr nb Inr assms False l lc
          have "cache_failure w i c x self2 e3 = (Inr v, self', e')"
            by (simp add: get_artist_country_def)
          then show ?thesis by (rule cache_failure_hit)
        next
          case (Inr v2)
          with cr q ac fr nb \<open>contains i c = Inr b\<close> assms False l lc
          have "cache_result w i c a country self1 e2 = (Inr v, self', e')"
            by (simp add: get_artist_country_def)
          then show ?thesis by (rule cache_result_hit)
        qed
      qed
    qed
  qed
  then obtain kvs rec where "cache self' = PDict kvs" "map_of kvs i = Some (PDict rec)"
    "get_default (PDict rec) ''country'' (PStr []) = Inr v" by blast
  with shape show ?thesis by (rule hit_returns)
qed

end
